theory Spec2Isabelle
  imports Complex_Main "HOL-Library.Multiset"
begin

section \<open>The size-mapping engine of the nail sizer\<close>

text \<open>
  The theory embeds \<^verbatim>\<open>src/api/src/routes/recommend.ts\<close> (the matcher
  \<^verbatim>\<open>applyRulesToFinger\<close> and the handler of \<^verbatim>\<open>POST /v1/recommend\<close>) and the
  preview loop of \<^verbatim>\<open>src/api/src/routes/admin.ts\<close>.

  Numbers. Widths, range bounds and the tolerance are JavaScript numbers, that is IEEE
  binary64 values; a value is modelled as the real number it denotes. Comparisons,
  \<^verbatim>\<open>Math.min\<close> and \<^verbatim>\<open>Math.abs\<close> are exact. A subtraction or a division gives the
  real result rounded to the nearest value with 53 significant bits, ties to even
  (\<open>dbl\<close>, \<open>fsub\<close>, \<open>fdiv\<close>), and a decimal literal of the source is the rounding of
  the decimal. The exponent is not bounded in the model: the bounds of a rule are read
  from \<^verbatim>\<open>real\<close> columns (four bytes), so no difference overflows, a difference of two
  binary64 values that is too small for a normal number is exact, and a quotient that
  underflows is compared with the thresholds as the tiny number it rounds from. Sizes
  and priorities are \<^verbatim>\<open>integer\<close> columns and are modelled as \<^typ>\<open>int\<close>. Text columns are
  strings.
\<close>

subsection \<open>Data\<close>

datatype FingerName = Thumb | Index | Middle | Ring | Pinky

datatype FitLabel = Snug | Standard | Loose

text \<open>The string each member of the union type \<^verbatim>\<open>FingerName\<close> stands for.\<close>

fun finger_str :: "FingerName \<Rightarrow> string" where
  "finger_str Thumb = ''thumb''"
| "finger_str Index = ''index''"
| "finger_str Middle = ''middle''"
| "finger_str Ring = ''ring''"
| "finger_str Pinky = ''pinky''"

text \<open>A row of \<^verbatim>\<open>size_rules\<close>; \<^verbatim>\<open>finger\<close> is a text column.\<close>

record SizeRule =
  rule_id :: int
  finger :: string
  minWidthMm :: real
  maxWidthMm :: real
  mappedSize :: int
  priority :: int

text \<open>A row of \<^verbatim>\<open>size_rules_config\<close>.\<close>

record SizeRulesConfig =
  betweenSizes :: string
  toleranceMm :: real

text \<open>
  \<^verbatim>\<open>closestRule.mappedSize\<close> on \<^verbatim>\<open>undefined\<close> throws a \<^verbatim>\<open>TypeError\<close>.
\<close>

datatype error = TypeError

text \<open>The running minimum of the two fallback loops starts at \<^verbatim>\<open>Infinity\<close>.\<close>

datatype bound = Infinity | Finite real

fun below :: "real \<Rightarrow> bound \<Rightarrow> bool" where
  "below d Infinity = True"
| "below d (Finite e) = (d < e)"

subsection \<open>Arithmetic of JavaScript numbers\<close>

text \<open>The power of two with an integer exponent.\<close>

definition pow2 :: "int \<Rightarrow> real" where
  "pow2 e = (if e \<ge> 0 then 2 ^ nat e else 1 / 2 ^ nat (- e))"

text \<open>The binary exponent of a number: \<open>pow2 (expo x) \<le> \<bar>x\<bar> < 2 * pow2 (expo x)\<close>.\<close>

function expo :: "real \<Rightarrow> int" where
  "expo x = (if \<bar>x\<bar> \<ge> 2 then expo (x / 2) + 1
             else if \<bar>x\<bar> < 1 \<and> x \<noteq> 0 then expo (x * 2) - 1
             else 0)"
  by pat_completeness auto
termination
proof (relation "measure (\<lambda>x. nat \<bar>\<lfloor>log 2 \<bar>x\<bar>\<rfloor>\<bar>)")
  show "wf (measure (\<lambda>x. nat \<bar>\<lfloor>log 2 \<bar>x\<bar>\<rfloor>\<bar>))" by simp
next
  fix x :: real
  assume a: "2 \<le> \<bar>x\<bar>"
  then have x: "x \<noteq> 0" by auto
  from a have "log 2 2 \<le> log 2 \<bar>x\<bar>" by (subst log_le_cancel_iff) auto
  then have "1 \<le> log 2 \<bar>x\<bar>" by simp
  then have "1 \<le> \<lfloor>log 2 \<bar>x\<bar>\<rfloor>" by linarith
  moreover from x have "log 2 \<bar>x / 2\<bar> = log 2 \<bar>x\<bar> - 1" by (simp add: log_divide)
  then have "\<lfloor>log 2 \<bar>x / 2\<bar>\<rfloor> = \<lfloor>log 2 \<bar>x\<bar>\<rfloor> - 1" by simp
  ultimately show "(x / 2, x) \<in> measure (\<lambda>x. nat \<bar>\<lfloor>log 2 \<bar>x\<bar>\<rfloor>\<bar>)"
    by simp
next
  fix x :: real
  assume a: "\<not> 2 \<le> \<bar>x\<bar>" "\<bar>x\<bar> < 1 \<and> x \<noteq> 0"
  then have x: "x \<noteq> 0" by auto
  from a have "log 2 \<bar>x\<bar> < log 2 1" by (subst log_less_cancel_iff) auto
  then have "log 2 \<bar>x\<bar> < 0" by simp
  then have "\<lfloor>log 2 \<bar>x\<bar>\<rfloor> \<le> - 1" by linarith
  moreover from x have "log 2 \<bar>x * 2\<bar> = log 2 \<bar>x\<bar> + 1" by (simp add: abs_mult log_mult)
  then have "\<lfloor>log 2 \<bar>x * 2\<bar>\<rfloor> = \<lfloor>log 2 \<bar>x\<bar>\<rfloor> + 1" by simp
  ultimately show "(x * 2, x) \<in> measure (\<lambda>x. nat \<bar>\<lfloor>log 2 \<bar>x\<bar>\<rfloor>\<bar>)"
    by simp
qed

text \<open>Rounding to the nearest integer, a tie to the even one.\<close>

definition round_even :: "real \<Rightarrow> int" where
  "round_even x =
     (let f = \<lfloor>x\<rfloor>; d = x - of_int f
      in if d < 1 / 2 then f else if d > 1 / 2 then f + 1 else if even f then f else f + 1)"

text \<open>Rounding to 53 significant bits: the unit in the last place is \<open>pow2 (expo x - 52)\<close>.\<close>

definition dbl :: "real \<Rightarrow> real" where
  "dbl x = (if x = 0 then 0
            else of_int (round_even (x / pow2 (expo x - 52))) * pow2 (expo x - 52))"

text \<open>The operators \<^verbatim>\<open>-\<close> and \<^verbatim>\<open>/\<close> of the source.\<close>

definition fsub :: "real \<Rightarrow> real \<Rightarrow> real" where
  "fsub a b = dbl (a - b)"

definition fdiv :: "real \<Rightarrow> real \<Rightarrow> real" where
  "fdiv a b = dbl (a / b)"

subsection \<open>\<^verbatim>\<open>Array.prototype.sort\<close>\<close>

text \<open>
  The sort of the engine the server runs on (Node, through \<^verbatim>\<open>@hono/node-server\<close>): it is
  stable, and it consults the comparator only as \<^verbatim>\<open>comparefn(x, y) < 0\<close> with \<open>x\<close> the
  element that stood later in the array and \<open>y\<close> one that stood earlier; \<open>x\<close> moves in
  front of \<open>y\<close> exactly when the answer is negative. \<open>insert_js\<close> places the next
  element of the array into the part already sorted.

  For a comparator that is consistent in the sense of the language standard every stable
  sort gives this result. For one that is not (the comparator of the preview answers
  \<open>- 1\<close> for a pair and \<open>0\<close> for the swapped pair) the standard leaves the order to the
  engine, and the model follows the engine: the result is the stable sort by the relation
  \<^verbatim>\<open>comparefn(x, y) < 0\<close>, which is a strict weak order for every comparator of this
  theory on the arrays it sorts (lemmas \<open>agrees_compareRules\<close>, \<open>agrees_comparePreview\<close>
  and \<open>agrees_compareHamming\<close>).
\<close>

fun insert_js :: "('a \<Rightarrow> 'a \<Rightarrow> int) \<Rightarrow> 'a \<Rightarrow> 'a list \<Rightarrow> 'a list" where
  "insert_js comparefn x [] = [x]"
| "insert_js comparefn x (y # ys) =
     (if comparefn x y < 0 then x # y # ys else y # insert_js comparefn x ys)"

definition sort_js :: "('a \<Rightarrow> 'a \<Rightarrow> int) \<Rightarrow> 'a list \<Rightarrow> 'a list" where
  "sort_js comparefn xs = foldl (\<lambda>acc x. insert_js comparefn x acc) [] xs"

subsection \<open>\<^verbatim>\<open>applyRulesToFinger\<close>\<close>

text \<open>Line 36: the rules relevant for this finger.\<close>

definition relevant_rules :: "FingerName \<Rightarrow> SizeRule list \<Rightarrow> SizeRule list" where
  "relevant_rules fingerName rules =
     filter (\<lambda>r. finger r = ''all'' \<or> finger r = finger_str fingerName) rules"

text \<open>Lines 39 to 44: the comparator.\<close>

definition compareRules :: "FingerName \<Rightarrow> SizeRule \<Rightarrow> SizeRule \<Rightarrow> int" where
  "compareRules fingerName a b =
     (if priority b \<noteq> priority a then priority b - priority a
      else if finger a = finger_str fingerName \<and> finger b = ''all'' then - 1
      else if finger a = ''all'' \<and> finger b = finger_str fingerName then 1
      else 0)"

definition sorted_relevant :: "FingerName \<Rightarrow> SizeRule list \<Rightarrow> SizeRule list" where
  "sorted_relevant fingerName rules =
     sort_js (compareRules fingerName) (relevant_rules fingerName rules)"

text \<open>Lines 49 to 51: the fit of a width inside the range of a rule.\<close>

definition exactFit :: "real \<Rightarrow> SizeRule \<Rightarrow> FitLabel" where
  "exactFit widthMm rule =
     (let range = fsub (maxWidthMm rule) (minWidthMm rule);
          position = (if range > 0 then fdiv (fsub widthMm (minWidthMm rule)) range else 1 / 2)
      in if position < dbl (33 / 100) then Snug
         else if position > dbl (67 / 100) then Loose
         else Standard)"

text \<open>Lines 47 to 54: the first rule, in the sorted order, whose range holds the width.\<close>

fun exactMatch :: "real \<Rightarrow> SizeRule list \<Rightarrow> (int \<times> FitLabel) option" where
  "exactMatch widthMm [] = None"
| "exactMatch widthMm (rule # rest) =
     (if widthMm \<ge> minWidthMm rule \<and> widthMm \<le> maxWidthMm rule
      then Some (mappedSize rule, exactFit widthMm rule)
      else exactMatch widthMm rest)"

text \<open>Lines 61 to 64 and 80 to 83: the distance to the nearer boundary of a rule.\<close>

definition boundaryDiff :: "real \<Rightarrow> SizeRule \<Rightarrow> real" where
  "boundaryDiff widthMm rule =
     min \<bar>fsub widthMm (minWidthMm rule)\<bar> \<bar>fsub widthMm (maxWidthMm rule)\<bar>"

text \<open>
  Lines 57 to 69: the loop over \<^verbatim>\<open>relevant\<close> that keeps \<^verbatim>\<open>nearestRule\<close> and
  \<^verbatim>\<open>nearestDiff\<close>.
\<close>

fun nearestLoop ::
  "real \<Rightarrow> real \<Rightarrow> SizeRule list \<Rightarrow> SizeRule option \<times> bound \<Rightarrow> SizeRule option \<times> bound" where
  "nearestLoop widthMm tol [] st = st"
| "nearestLoop widthMm tol (rule # rest) (nearestRule, nearestDiff) =
     (let diff = boundaryDiff widthMm rule
      in if diff \<le> tol \<and> below diff nearestDiff
         then nearestLoop widthMm tol rest (Some rule, Finite diff)
         else nearestLoop widthMm tol rest (nearestRule, nearestDiff))"

text \<open>
  Lines 77 to 88: the last resort. \<^verbatim>\<open>closestRule\<close> starts as \<^verbatim>\<open>relevant[0]\<close>, which is
  \<^verbatim>\<open>undefined\<close> (here \<open>None\<close>) for an empty array.
\<close>

fun closestLoop ::
  "real \<Rightarrow> SizeRule list \<Rightarrow> SizeRule option \<times> bound \<Rightarrow> SizeRule option \<times> bound" where
  "closestLoop widthMm [] st = st"
| "closestLoop widthMm (rule # rest) (closestRule, closestDiff) =
     (let diff = boundaryDiff widthMm rule
      in if below diff closestDiff
         then closestLoop widthMm rest (Some rule, Finite diff)
         else closestLoop widthMm rest (closestRule, closestDiff))"

definition toleranceMatch :: "real \<Rightarrow> SizeRulesConfig \<Rightarrow> SizeRule list \<Rightarrow> (int \<times> FitLabel) option" where
  "toleranceMatch widthMm config relevant =
     (case fst (nearestLoop widthMm (toleranceMm config) relevant (None, Infinity)) of
        None \<Rightarrow> None
      | Some nearestRule \<Rightarrow>
          Some (mappedSize nearestRule,
                if betweenSizes config = ''size_down'' then Snug else Loose))"

definition lastResort :: "real \<Rightarrow> SizeRule list \<Rightarrow> error + (int \<times> FitLabel)" where
  "lastResort widthMm relevant =
     (case fst (closestLoop widthMm relevant
                  (case relevant of [] \<Rightarrow> None | r # _ \<Rightarrow> Some r, Infinity)) of
        None \<Rightarrow> Inl TypeError
      | Some closestRule \<Rightarrow> Inr (mappedSize closestRule, Standard))"

text \<open>
  The whole function: the exact match returns first, then the match within the tolerance,
  then the last resort.
\<close>

definition applyRulesToFinger ::
  "real \<Rightarrow> FingerName \<Rightarrow> SizeRule list \<Rightarrow> SizeRulesConfig \<Rightarrow> error + (int \<times> FitLabel)" where
  "applyRulesToFinger widthMm fingerName rules config =
     (let relevant = sorted_relevant fingerName rules
      in case exactMatch widthMm relevant of
           Some res \<Rightarrow> Inr res
         | None \<Rightarrow>
             (case toleranceMatch widthMm config relevant of
                Some res \<Rightarrow> Inr res
              | None \<Rightarrow> lastResort widthMm relevant))"


subsection \<open>The preview of \<^verbatim>\<open>POST /v1/admin/rules/preview\<close>\<close>

text \<open>
  Lines 399 to 403 of \<^verbatim>\<open>admin.ts\<close>: the comparator of the preview. It has no branch that
  answers \<open>1\<close>.
\<close>

definition comparePreview :: "FingerName \<Rightarrow> SizeRule \<Rightarrow> SizeRule \<Rightarrow> int" where
  "comparePreview fingerName a b =
     (if priority b \<noteq> priority a then priority b - priority a
      else if finger a = finger_str fingerName \<and> finger b = ''all'' then - 1
      else 0)"

text \<open>Lines 406 to 411: the first rule whose range holds the width replaces the size.\<close>

fun previewLoop :: "real \<Rightarrow> SizeRule list \<Rightarrow> int \<Rightarrow> int" where
  "previewLoop widthMm [] size0 = size0"
| "previewLoop widthMm (rule # rest) size0 =
     (if widthMm \<ge> minWidthMm rule \<and> widthMm \<le> maxWidthMm rule
      then mappedSize rule
      else previewLoop widthMm rest size0)"

text \<open>Lines 397 to 411, for one finger.\<close>

definition previewSize :: "real \<Rightarrow> FingerName \<Rightarrow> SizeRule list \<Rightarrow> int" where
  "previewSize widthMm fingerName rules =
     (let relevant = sort_js (comparePreview fingerName) (relevant_rules fingerName rules)
      in previewLoop widthMm relevant (case relevant of [] \<Rightarrow> 5 | r # _ \<Rightarrow> mappedSize r))"

subsection \<open>Strings of numbers\<close>

text \<open>\<^verbatim>\<open>String(n)\<close> and the template literal, for an integer \<open>n\<close>: its decimal digits.\<close>

definition digit_char :: "nat \<Rightarrow> char" where
  "digit_char d = ''0123456789'' ! d"

fun show_nat :: "nat \<Rightarrow> string" where
  "show_nat n = (if n < 10 then [digit_char n] else show_nat (n div 10) @ [digit_char (n mod 10)])"

definition show_int :: "int \<Rightarrow> string" where
  "show_int i = (if i < 0 then ''-'' @ show_nat (nat (- i)) else show_nat (nat i))"

text \<open>\<^verbatim>\<open>Array.prototype.join\<close>.\<close>

fun join :: "string \<Rightarrow> string list \<Rightarrow> string" where
  "join sep [] = []"
| "join sep [x] = x"
| "join sep (x # y # ys) = x @ sep @ join sep (y # ys)"

subsection \<open>The handler of \<^verbatim>\<open>POST /v1/recommend\<close>\<close>

text \<open>The entry of one finger in the \<^verbatim>\<open>fingers\<close> column of a measurement.\<close>

record FingerData =
  width_mm :: real
  length_mm :: real
  curve_adj_width_mm :: real
  confidence :: real

record NailSize =
  sizeNumber :: int
  label :: "string option"

record SizeSet =
  setId :: int
  setName :: string
  thumbSize :: int
  indexSize :: int
  middleSize :: int
  ringSize :: int
  pinkySize :: int

record FingerResult =
  fr_size :: int
  fr_size_label :: string
  fr_width_mm :: real
  fr_fit :: FitLabel

text \<open>An element of \<^verbatim>\<open>matchingSets\<close>; the response drops \<^verbatim>\<open>_id\<close>.\<close>

record MatchingSet =
  set_name :: string
  set_id :: string
  exact_match :: bool
  diff :: nat
  underscore_id :: int

text \<open>The values of the insert into \<^verbatim>\<open>recommendations\<close>.\<close>

record Recommendation =
  measurementId :: string
  chartId :: string
  sizeProfile :: string
  sizes :: "FingerName \<Rightarrow> int \<times> string \<times> FitLabel"
  matchingSetId :: "int option"

record RecommendJson =
  measurement_id :: string
  size_profile :: string
  per_finger :: "FingerName \<rightharpoonup> FingerResult"
  matching_sets :: "(string \<times> string \<times> bool \<times> nat) list"

text \<open>
  What the handler answers: \<^verbatim>\<open>c.json\<close> with an error payload and a status, the
  recommendation, or an exception that leaves the handler (the server's \<^verbatim>\<open>onError\<close>
  turns it into \<^verbatim>\<open>internal_error\<close>, status 500).
\<close>

datatype response =
    JsonError string string nat
  | JsonOk RecommendJson
  | Uncaught error

text \<open>
  What each query of the handler returns: the first row of \<^verbatim>\<open>measurements\<close> with the
  given id (its \<^verbatim>\<open>fingers\<close> column), and the rows of chart \<^verbatim>\<open>default\<close> of the other
  tables.
\<close>

record database =
  measurements :: "string \<rightharpoonup> (FingerName \<rightharpoonup> FingerData)"
  sizeRules :: "SizeRule list"
  sizeRulesConfig :: "SizeRulesConfig option"
  nailSizes :: "NailSize list"
  sizeSets :: "SizeSet list"

text \<open>The statements the handler sends to the database, in the order it sends them.\<close>

datatype db_call =
    SelectMeasurement string
  | SelectSizeRules
  | SelectSizeRulesConfig
  | SelectNailSizes
  | SelectSizeSets
  | InsertRecommendation Recommendation

datatype request = NotJson | Body "string option"

definition fingerNames :: "FingerName list" where
  "fingerNames = [Thumb, Index, Middle, Ring, Pinky]"

text \<open>Lines 156 and 157.\<close>

definition sizeLabel :: "NailSize list \<Rightarrow> int \<Rightarrow> string" where
  "sizeLabel sizeRows n =
     (case find (\<lambda>s. sizeNumber s = n) sizeRows of
        None \<Rightarrow> show_int n
      | Some s \<Rightarrow> (case label s of None \<Rightarrow> show_int n | Some l \<Rightarrow> l))"

text \<open>
  Lines 168 to 190: the loop over the five names. A missing finger answers at once; an
  exception of the matcher leaves the handler.
\<close>

fun fingerLoop ::
  "(FingerName \<rightharpoonup> FingerData) \<Rightarrow> SizeRule list \<Rightarrow> SizeRulesConfig \<Rightarrow> NailSize list
     \<Rightarrow> FingerName list \<Rightarrow> (FingerName \<rightharpoonup> FingerResult)
     \<Rightarrow> response + (FingerName \<rightharpoonup> FingerResult)" where
  "fingerLoop fingers rules config sizeRows [] perFinger = Inr perFinger"
| "fingerLoop fingers rules config sizeRows (name # rest) perFinger =
     (case fingers name of
        None \<Rightarrow>
          Inl (JsonError ''validation_error''
                 (''Measurement missing data for finger: '' @ finger_str name) 400)
      | Some fd \<Rightarrow>
          (case applyRulesToFinger (curve_adj_width_mm fd) name rules config of
             Inl e \<Rightarrow> Inl (Uncaught e)
           | Inr (sz, ft) \<Rightarrow>
               fingerLoop fingers rules config sizeRows rest
                 (perFinger(name \<mapsto>
                    \<lparr>fr_size = sz, fr_size_label = sizeLabel sizeRows sz,
                     fr_width_mm = curve_adj_width_mm fd, fr_fit = ft\<rparr>))))"

text \<open>Line 193.\<close>

definition buildProfile :: "(FingerName \<Rightarrow> int) \<Rightarrow> string" where
  "buildProfile recSize = join ''-'' (map (\<lambda>n. show_int (recSize n)) fingerNames)"

text \<open>Lines 203 to 209.\<close>

fun setMap :: "SizeSet \<Rightarrow> FingerName \<Rightarrow> int" where
  "setMap s Thumb = thumbSize s"
| "setMap s Index = indexSize s"
| "setMap s Middle = middleSize s"
| "setMap s Ring = ringSize s"
| "setMap s Pinky = pinkySize s"

text \<open>Lines 210 and 211, with \<open>recSize n\<close> for \<^verbatim>\<open>perFinger[n].size\<close>.\<close>

definition toMatchingSet :: "(FingerName \<Rightarrow> int) \<Rightarrow> SizeSet \<Rightarrow> MatchingSet" where
  "toMatchingSet recSize s =
     (let d = length (filter (\<lambda>n. recSize n \<noteq> setMap s n) fingerNames)
      in \<lparr>set_name = setName s, set_id = ''set_'' @ show_int (setId s),
          exact_match = (d = 0), diff = d, underscore_id = setId s\<rparr>)"

definition compareDiff :: "MatchingSet \<Rightarrow> MatchingSet \<Rightarrow> int" where
  "compareDiff a b = int (diff a) - int (diff b)"

text \<open>Lines 201 to 214.\<close>

definition matchSets :: "(FingerName \<Rightarrow> int) \<Rightarrow> SizeSet list \<Rightarrow> MatchingSet list" where
  "matchSets recSize sets =
     sort_js compareDiff (filter (\<lambda>s. diff s \<le> 2) (map (toMatchingSet recSize) sets))"

text \<open>Line 216.\<close>

definition bestMatchSetId :: "MatchingSet list \<Rightarrow> int option" where
  "bestMatchSetId matchingSets = (case matchingSets of [] \<Rightarrow> None | m # _ \<Rightarrow> Some (underscore_id m))"

definition defaultConfig :: SizeRulesConfig where
  "defaultConfig = \<lparr>betweenSizes = ''size_down'', toleranceMm = dbl (3 / 10)\<rparr>"

text \<open>Lines 100 to 238. The result is the answer and the statements sent.\<close>

definition recommend_post :: "request \<Rightarrow> database \<Rightarrow> response \<times> db_call list" where
  "recommend_post req db =
     (case req of
        NotJson \<Rightarrow> (JsonError ''validation_error'' ''Request body must be JSON'' 400, [])
      | Body None \<Rightarrow> (JsonError ''validation_error'' ''measurement_id is required'' 400, [])
      | Body (Some mid) \<Rightarrow>
          if mid = [] then (JsonError ''validation_error'' ''measurement_id is required'' 400, [])
          else
            (case measurements db mid of
               None \<Rightarrow> (JsonError ''not_found'' ''Measurement not found'' 404, [SelectMeasurement mid])
             | Some fingers \<Rightarrow>
                 let rules = sizeRules db
                 in if length rules = 0
                    then (JsonError ''no_rules''
                            ''Size mapping rules have not been configured. Contact admin.'' 400,
                          [SelectMeasurement mid, SelectSizeRules])
                    else
                      let effectiveConfig =
                            (case sizeRulesConfig db of None \<Rightarrow> defaultConfig | Some c \<Rightarrow> c);
                          sizeRows = nailSizes db
                      in case fingerLoop fingers rules effectiveConfig sizeRows fingerNames Map.empty of
                           Inl resp \<Rightarrow>
                             (resp, [SelectMeasurement mid, SelectSizeRules, SelectSizeRulesConfig,
                                     SelectNailSizes])
                         | Inr perFinger \<Rightarrow>
                             let recSize = (\<lambda>n. fr_size (the (perFinger n)));
                                 profile = buildProfile recSize;
                                 matchingSets = matchSets recSize (sizeSets db);
                                 sizesJson = (\<lambda>n. (fr_size (the (perFinger n)),
                                                     fr_size_label (the (perFinger n)),
                                                     fr_fit (the (perFinger n))))
                             in (JsonOk \<lparr>measurement_id = mid, size_profile = profile,
                                         per_finger = perFinger,
                                         matching_sets =
                                           map (\<lambda>m. (set_name m, set_id m, exact_match m, diff m))
                                             matchingSets\<rparr>,
                                 [SelectMeasurement mid, SelectSizeRules, SelectSizeRulesConfig,
                                  SelectNailSizes, SelectSizeSets,
                                  InsertRecommendation
                                    \<lparr>measurementId = mid, chartId = ''default'',
                                     sizeProfile = profile, sizes = sizesJson,
                                     matchingSetId = bestMatchSetId matchingSets\<rparr>])))"

text \<open>The table \<^verbatim>\<open>recommendations\<close> after the statements of one request.\<close>

fun run_calls :: "db_call list \<Rightarrow> Recommendation list \<Rightarrow> Recommendation list" where
  "run_calls [] table = table"
| "run_calls (InsertRecommendation row # cs) table = run_calls cs (table @ [row])"
| "run_calls (c # cs) table = run_calls cs table"


text \<open>The calls that write to \<^verbatim>\<open>recommendations\<close>.\<close>

fun is_insert :: "db_call \<Rightarrow> bool" where
  "is_insert (InsertRecommendation row) = True"
| "is_insert c = False"

subsection \<open>The statements of every endpoint\<close>

text \<open>
  The SQL statements in the source, by endpoint: the routes of the API server
  (\<^verbatim>\<open>validate.ts\<close>, \<^verbatim>\<open>measure.ts\<close>, \<^verbatim>\<open>recommend.ts\<close>, \<^verbatim>\<open>admin.ts\<close>), its seed script, and
  the routes of the admin panel, which keeps a store of its own with no table of
  recommendations. \<open>SqlUpsert\<close> is an insert that updates on conflict. The foreign
  keys of \<^verbatim>\<open>recommendations\<close> in \<^verbatim>\<open>schema.ts\<close> declare no action on delete, so a
  statement on another table changes no row of it.
\<close>

datatype table =
    T_measurements | T_nail_sizes | T_size_rules | T_size_rules_config | T_size_sets
  | T_recommendations | T_admins

datatype verb = SqlSelect | SqlInsert | SqlUpsert | SqlUpdate | SqlDelete

datatype endpoint =
    Api_validate_post | Api_measure_post | Api_measure_history | Api_measure_get
  | Api_recommend_post
  | Api_auth_login | Api_auth_refresh
  | Api_sizes_get | Api_sizes_post | Api_sizes_put | Api_sizes_delete
  | Api_sizes_import | Api_sizes_export
  | Api_rules_get | Api_rules_post | Api_rules_config_put | Api_rules_put | Api_rules_delete
  | Api_rules_preview
  | Api_sets_get | Api_sets_post | Api_sets_put | Api_sets_delete
  | Api_measurements_stats | Api_measurements_list | Api_measurements_get
  | Api_seed
  | Panel_login | Panel_init
  | Panel_sizes_get | Panel_sizes_post | Panel_sizes_put | Panel_sizes_delete
  | Panel_sizes_import | Panel_sizes_export
  | Panel_rules_get | Panel_rules_post | Panel_rules_put | Panel_rules_delete
  | Panel_rules_preview
  | Panel_sets_get | Panel_sets_post | Panel_sets_put | Panel_sets_delete
  | Panel_measurements_stats | Panel_measurements_list | Panel_measurements_get

fun statements :: "endpoint \<Rightarrow> (verb \<times> table) list" where
  "statements Api_validate_post = []"
| "statements Api_measure_post = [(SqlInsert, T_measurements)]"
| "statements Api_measure_history = [(SqlSelect, T_recommendations), (SqlSelect, T_measurements)]"
| "statements Api_measure_get = [(SqlSelect, T_measurements)]"
| "statements Api_recommend_post =
     [(SqlSelect, T_measurements), (SqlSelect, T_size_rules), (SqlSelect, T_size_rules_config),
      (SqlSelect, T_nail_sizes), (SqlSelect, T_size_sets), (SqlInsert, T_recommendations)]"
| "statements Api_auth_login = [(SqlSelect, T_admins), (SqlUpdate, T_admins)]"
| "statements Api_auth_refresh = []"
| "statements Api_sizes_get = [(SqlSelect, T_nail_sizes)]"
| "statements Api_sizes_post = [(SqlInsert, T_nail_sizes)]"
| "statements Api_sizes_put = [(SqlUpdate, T_nail_sizes)]"
| "statements Api_sizes_delete = [(SqlDelete, T_nail_sizes)]"
| "statements Api_sizes_import = [(SqlUpsert, T_nail_sizes)]"
| "statements Api_sizes_export = [(SqlSelect, T_nail_sizes)]"
| "statements Api_rules_get = [(SqlSelect, T_size_rules), (SqlSelect, T_size_rules_config)]"
| "statements Api_rules_post = [(SqlInsert, T_size_rules)]"
| "statements Api_rules_config_put = [(SqlUpsert, T_size_rules_config)]"
| "statements Api_rules_put = [(SqlUpdate, T_size_rules)]"
| "statements Api_rules_delete = [(SqlDelete, T_size_rules)]"
| "statements Api_rules_preview =
     [(SqlSelect, T_size_rules), (SqlSelect, T_size_rules_config), (SqlSelect, T_nail_sizes)]"
| "statements Api_sets_get = [(SqlSelect, T_size_sets)]"
| "statements Api_sets_post = [(SqlInsert, T_size_sets)]"
| "statements Api_sets_put = [(SqlUpdate, T_size_sets)]"
| "statements Api_sets_delete = [(SqlDelete, T_size_sets)]"
| "statements Api_measurements_stats = [(SqlSelect, T_measurements)]"
| "statements Api_measurements_list = [(SqlSelect, T_measurements)]"
| "statements Api_measurements_get = [(SqlSelect, T_measurements)]"
| "statements Api_seed =
     [(SqlSelect, T_admins), (SqlInsert, T_admins), (SqlInsert, T_nail_sizes),
      (SqlSelect, T_size_rules), (SqlInsert, T_size_rules), (SqlInsert, T_size_rules_config)]"
| "statements Panel_login = [(SqlSelect, T_admins)]"
| "statements Panel_init = [(SqlSelect, T_admins), (SqlInsert, T_admins)]"
| "statements Panel_sizes_get = [(SqlSelect, T_nail_sizes)]"
| "statements Panel_sizes_post = [(SqlInsert, T_nail_sizes)]"
| "statements Panel_sizes_put = [(SqlUpdate, T_nail_sizes)]"
| "statements Panel_sizes_delete = [(SqlDelete, T_nail_sizes)]"
| "statements Panel_sizes_import = [(SqlUpsert, T_nail_sizes)]"
| "statements Panel_sizes_export = [(SqlSelect, T_nail_sizes)]"
| "statements Panel_rules_get = [(SqlSelect, T_size_rules)]"
| "statements Panel_rules_post = [(SqlInsert, T_size_rules)]"
| "statements Panel_rules_put = [(SqlUpdate, T_size_rules)]"
| "statements Panel_rules_delete = [(SqlDelete, T_size_rules)]"
| "statements Panel_rules_preview = [(SqlSelect, T_size_rules)]"
| "statements Panel_sets_get = [(SqlSelect, T_size_sets)]"
| "statements Panel_sets_post = [(SqlInsert, T_size_sets)]"
| "statements Panel_sets_put = [(SqlUpdate, T_size_sets)]"
| "statements Panel_sets_delete = [(SqlDelete, T_size_sets)]"
| "statements Panel_measurements_stats = [(SqlSelect, T_measurements)]"
| "statements Panel_measurements_list = [(SqlSelect, T_measurements)]"
| "statements Panel_measurements_get = [(SqlSelect, T_measurements)]"

text \<open>The statement behind each call of the handler of \<^verbatim>\<open>POST /v1/recommend\<close>.\<close>

fun call_statement :: "db_call \<Rightarrow> verb \<times> table" where
  "call_statement (SelectMeasurement mid) = (SqlSelect, T_measurements)"
| "call_statement SelectSizeRules = (SqlSelect, T_size_rules)"
| "call_statement SelectSizeRulesConfig = (SqlSelect, T_size_rules_config)"
| "call_statement SelectNailSizes = (SqlSelect, T_nail_sizes)"
| "call_statement SelectSizeSets = (SqlSelect, T_size_sets)"
| "call_statement (InsertRecommendation row) = (SqlInsert, T_recommendations)"

subsection \<open>The words of the specification\<close>

text \<open>A rule applies to a finger: it is a rule of that finger or a rule for all fingers.\<close>

definition applies_to :: "FingerName \<Rightarrow> SizeRule \<Rightarrow> bool" where
  "applies_to f r = (finger r = ''all'' \<or> finger r = finger_str f)"

text \<open>The inclusive range of a rule holds the width.\<close>

definition in_range :: "real \<Rightarrow> SizeRule \<Rightarrow> bool" where
  "in_range w r = (minWidthMm r \<le> w \<and> w \<le> maxWidthMm r)"

text \<open>
  Rule \<open>a\<close> stands before rule \<open>b\<close> in the order of the specification: higher priority
  first, and at equal priority the rule of the finger before the rule for all fingers.
\<close>

definition ranks_before :: "FingerName \<Rightarrow> SizeRule \<Rightarrow> SizeRule \<Rightarrow> bool" where
  "ranks_before f a b =
     (priority a > priority b
      \<or> (priority a = priority b \<and> finger a = finger_str f \<and> finger b = ''all''))"

text \<open>
  The position of the width in the range, one half for a range of zero width, and the fit
  it gives: first in exact arithmetic with the decimal thresholds, then as the source
  computes them, each operation rounded and the thresholds the binary64 values of the
  literals.
\<close>

definition range_position :: "real \<Rightarrow> SizeRule \<Rightarrow> real" where
  "range_position w r =
     (if maxWidthMm r = minWidthMm r then 1 / 2
      else (w - minWidthMm r) / (maxWidthMm r - minWidthMm r))"

definition position_fit :: "real \<Rightarrow> FitLabel" where
  "position_fit p = (if p < 33 / 100 then Snug else if p > 67 / 100 then Loose else Standard)"

definition position_dbl :: "real \<Rightarrow> SizeRule \<Rightarrow> real" where
  "position_dbl w r =
     (if maxWidthMm r = minWidthMm r then 1 / 2
      else fdiv (fsub w (minWidthMm r)) (fsub (maxWidthMm r) (minWidthMm r)))"

definition position_fit_dbl :: "real \<Rightarrow> FitLabel" where
  "position_fit_dbl p =
     (if p < dbl (33 / 100) then Snug else if p > dbl (67 / 100) then Loose else Standard)"

text \<open>
  The distance of the width to the nearer boundary of a rule: in exact arithmetic, and as
  the source computes it, each difference rounded.
\<close>

abbreviation boundary_distance :: "real \<Rightarrow> SizeRule \<Rightarrow> real" where
  "boundary_distance w r \<equiv> min \<bar>w - minWidthMm r\<bar> \<bar>w - maxWidthMm r\<bar>"

abbreviation computed_distance :: "real \<Rightarrow> SizeRule \<Rightarrow> real" where
  "computed_distance w r \<equiv> min \<bar>fsub w (minWidthMm r)\<bar> \<bar>fsub w (maxWidthMm r)\<bar>"


subsection \<open>Auxiliary notions of the proofs\<close>

text \<open>
  The first element, in list order, that satisfies \<open>P\<close> with the least key: the running
  best of a scan that replaces it only by a strictly smaller key.
\<close>

fun pick :: "('a \<Rightarrow> 'k::linorder) \<Rightarrow> ('a \<Rightarrow> bool) \<Rightarrow> 'a option \<Rightarrow> 'a list \<Rightarrow> 'a option" where
  "pick key P best [] = best"
| "pick key P best (x # xs) =
     pick key P
       (if P x \<and> (case best of None \<Rightarrow> True | Some y \<Rightarrow> key x < key y) then Some x else best) xs"

text \<open>A comparator is negative exactly where a key is smaller, on a set of elements.\<close>

definition agrees :: "('a \<Rightarrow> 'a \<Rightarrow> int) \<Rightarrow> ('a \<Rightarrow> 'k::linorder) \<Rightarrow> 'a set \<Rightarrow> bool" where
  "agrees c key S = (\<forall>a\<in>S. \<forall>b\<in>S. (c a b < 0) = (key a < key b))"

definition rule_rank :: "SizeRule \<Rightarrow> int" where
  "rule_rank r = - 2 * priority r + (if finger r = ''all'' then 1 else 0)"

definition applicable :: "FingerName \<Rightarrow> SizeRule set" where
  "applicable f = {r. finger r = ''all'' \<or> finger r = finger_str f}"

fun bound_of :: "real \<Rightarrow> SizeRule option \<Rightarrow> bound" where
  "bound_of w None = Infinity"
| "bound_of w (Some r) = Finite (boundaryDiff w r)"



subsection \<open>Rules, configurations and hands of the scenarios\<close>

definition ruleAll :: SizeRule where
  "ruleAll = \<lparr>rule_id = 1, finger = ''all'', minWidthMm = 10, maxWidthMm = 12,
               mappedSize = 9, priority = 0\<rparr>"

definition ruleThumb :: SizeRule where
  "ruleThumb = \<lparr>rule_id = 2, finger = ''thumb'', minWidthMm = 10.5, maxWidthMm = 11.5,
                 mappedSize = 5, priority = 1\<rparr>"

definition ruleThumbSame :: SizeRule where
  "ruleThumbSame = \<lparr>rule_id = 3, finger = ''thumb'', minWidthMm = 10, maxWidthMm = 12,
                     mappedSize = 5, priority = 0\<rparr>"

definition ruleInverted :: SizeRule where
  "ruleInverted = \<lparr>rule_id = 4, finger = ''all'', minWidthMm = 12, maxWidthMm = 10,
                    mappedSize = 9, priority = 0\<rparr>"

text \<open>The first rule of the seed script, and rules whose rounded distances tie.\<close>

definition ruleSeed0 :: SizeRule where
  "ruleSeed0 = \<lparr>rule_id = 10, finger = ''all'', minWidthMm = 17, maxWidthMm = 30,
                 mappedSize = 0, priority = 0\<rparr>"

definition ruleAbove :: SizeRule where
  "ruleAbove = \<lparr>rule_id = 11, finger = ''all'', minWidthMm = dbl (67 / 10), maxWidthMm = 8,
                 mappedSize = 1, priority = 0\<rparr>"

definition ruleBelow :: SizeRule where
  "ruleBelow = \<lparr>rule_id = 12, finger = ''all'', minWidthMm = 1, maxWidthMm = dbl (13 / 10),
                 mappedSize = 2, priority = 0\<rparr>"

definition ruleFar :: SizeRule where
  "ruleFar = \<lparr>rule_id = 13, finger = ''all'', minWidthMm = dbl (228 / 10), maxWidthMm = 30,
               mappedSize = 0, priority = 0\<rparr>"

definition ruleNear :: SizeRule where
  "ruleNear = \<lparr>rule_id = 14, finger = ''all'', minWidthMm = 5, maxWidthMm = dbl (52 / 10),
                mappedSize = 9, priority = 0\<rparr>"

definition tolerance3 :: SizeRulesConfig where
  "tolerance3 = \<lparr>betweenSizes = ''size_down'', toleranceMm = 3\<rparr>"

definition zeroTolerance :: SizeRulesConfig where
  "zeroTolerance = \<lparr>betweenSizes = ''size_down'', toleranceMm = 0\<rparr>"

definition finger11 :: FingerData where
  "finger11 = \<lparr>width_mm = 11, length_mm = 12, curve_adj_width_mm = 11, confidence = dbl (9 / 10)\<rparr>"

definition hand11 :: "FingerName \<rightharpoonup> FingerData" where
  "hand11 = (\<lambda>n. Some finger11)"




definition emptyDb :: database where
  "emptyDb = \<lparr>measurements = Map.empty, sizeRules = [], sizeRulesConfig = None,
              nailSizes = [], sizeSets = []\<rparr>"

definition ruleIndex :: SizeRule where
  "ruleIndex = \<lparr>rule_id = 5, finger = ''index'', minWidthMm = 10, maxWidthMm = 12,
                 mappedSize = 6, priority = 0\<rparr>"

definition handNoIndex :: "FingerName \<rightharpoonup> FingerData" where
  "handNoIndex = (\<lambda>n. if n = Index then None else Some finger11)"

definition dbThumbOnly :: database where
  "dbThumbOnly = \<lparr>measurements = [''msr_1'' \<mapsto> hand11], sizeRules = [ruleThumbSame],
                  sizeRulesConfig = None, nailSizes = [], sizeSets = []\<rparr>"

definition dbIndexOnly :: database where
  "dbIndexOnly = \<lparr>measurements = [''msr_2'' \<mapsto> handNoIndex], sizeRules = [ruleIndex],
                  sizeRulesConfig = None, nailSizes = [], sizeSets = []\<rparr>"

definition dbNoRules :: database where
  "dbNoRules = \<lparr>measurements = [''msr_1'' \<mapsto> hand11], sizeRules = [],
                sizeRulesConfig = None, nailSizes = [], sizeSets = []\<rparr>"

definition dbAll :: database where
  "dbAll = \<lparr>measurements = [''msr_1'' \<mapsto> hand11], sizeRules = [ruleAll],
            sizeRulesConfig = None, nailSizes = [], sizeSets = []\<rparr>"

section \<open>Lemmas\<close>

subsection \<open>Rounding keeps the sign\<close>

declare expo.simps [simp del]

lemma pow2_powr: "pow2 e = 2 powr (of_int e)"
  by (simp add: pow2_def powr_real_of_int inverse_eq_divide)

lemma pow2_pos: "0 < pow2 e"
  by (simp add: pow2_powr)

lemma pow2_add: "pow2 (a + b) = pow2 a * pow2 b"
  by (simp add: pow2_powr powr_add)

lemma pow2_suc: "pow2 (e + 1) = 2 * pow2 e"
  using pow2_add [of e 1] by (simp add: pow2_def)

lemma pow2_pred: "pow2 (e - 1) = pow2 e / 2"
  using pow2_add [of e "- 1"] by (simp add: pow2_def)

lemma expo_bounds: "x \<noteq> 0 \<Longrightarrow> pow2 (expo x) \<le> \<bar>x\<bar> \<and> \<bar>x\<bar> < 2 * pow2 (expo x)"
proof (induction x rule: expo.induct)
  case (1 x)
  show ?case
  proof (cases "\<bar>x\<bar> \<ge> 2")
    case True
    then have e: "expo x = expo (x / 2) + 1" by (subst expo.simps) simp
    from True 1 have "pow2 (expo (x / 2)) \<le> \<bar>x / 2\<bar> \<and> \<bar>x / 2\<bar> < 2 * pow2 (expo (x / 2))"
      by auto
    then show ?thesis by (simp add: e pow2_suc)
  next
    case False
    show ?thesis
    proof (cases "\<bar>x\<bar> < 1")
      case True
      with False "1.prems" have e: "expo x = expo (x * 2) - 1" by (subst expo.simps) simp
      from True False 1
      have "pow2 (expo (x * 2)) \<le> \<bar>x * 2\<bar> \<and> \<bar>x * 2\<bar> < 2 * pow2 (expo (x * 2))"
        by auto
      then show ?thesis by (simp add: e pow2_pred abs_mult)
    next
      case small: False
      with \<open>\<not> \<bar>x\<bar> \<ge> 2\<close> have e: "expo x = 0" by (subst expo.simps) simp
      from small \<open>\<not> \<bar>x\<bar> \<ge> 2\<close> show ?thesis by (simp add: e pow2_def)
    qed
  qed
qed

lemma scaled_large:
  assumes "x \<noteq> 0"
  shows "2 ^ 52 \<le> \<bar>x / pow2 (expo x - 52)\<bar>"
proof -
  have "pow2 (expo x) = pow2 (expo x - 52) * 2 ^ 52"
    using pow2_add [of "expo x - 52" 52] by (simp add: pow2_def)
  with expo_bounds [OF assms] have "pow2 (expo x - 52) * 2 ^ 52 \<le> \<bar>x\<bar>" by simp
  then have "2 ^ 52 \<le> \<bar>x\<bar> / pow2 (expo x - 52)"
    using pow2_pos [of "expo x - 52"] by (simp add: pos_le_divide_eq mult.commute)
  then show ?thesis using pow2_pos [of "expo x - 52"] by (simp add: abs_divide)
qed

lemma round_even_pos: "1 \<le> y \<Longrightarrow> 0 < round_even y"
  unfolding round_even_def Let_def by (auto; linarith)

lemma round_even_neg: "y \<le> - 2 \<Longrightarrow> round_even y < 0"
  unfolding round_even_def Let_def by (auto; linarith)

lemma dbl_pos: "0 < x \<Longrightarrow> 0 < dbl x"
proof -
  assume x: "0 < x"
  then have "2 ^ 52 \<le> x / pow2 (expo x - 52)"
    using scaled_large [of x] pow2_pos [of "expo x - 52"] by (simp add: abs_divide)
  then have "1 \<le> x / pow2 (expo x - 52)" by simp
  then have "0 < round_even (x / pow2 (expo x - 52))" by (rule round_even_pos)
  with x show ?thesis using pow2_pos [of "expo x - 52"] by (simp add: dbl_def)
qed

lemma dbl_neg: "x < 0 \<Longrightarrow> dbl x < 0"
proof -
  assume x: "x < 0"
  then have "2 ^ 52 \<le> - (x / pow2 (expo x - 52))"
    using scaled_large [of x] pow2_pos [of "expo x - 52"] by (simp add: abs_divide)
  then have "x / pow2 (expo x - 52) \<le> - 2" by simp
  then have "round_even (x / pow2 (expo x - 52)) < 0" by (rule round_even_neg)
  with x show ?thesis using pow2_pos [of "expo x - 52"]
    by (simp add: dbl_def mult_less_0_iff)
qed

lemma dbl_0: "dbl 0 = 0"
  by (simp add: dbl_def)


lemma dbl_pos_iff: "0 < dbl x \<longleftrightarrow> 0 < x"
proof (cases x "0::real" rule: linorder_cases)
  case less
  with dbl_neg [of x] show ?thesis by simp
next
  case equal
  then show ?thesis by (simp add: dbl_0)
next
  case greater
  with dbl_pos [of x] show ?thesis by simp
qed

lemmas dbl_eval = dbl_def fsub_def fdiv_def expo.simps pow2_def round_even_def Let_def

subsection \<open>The scan for the first least element\<close>

lemma pick_snoc:
  "pick key P best (xs @ [x]) =
     (let b = pick key P best xs
      in if P x \<and> (case b of None \<Rightarrow> True | Some y \<Rightarrow> key x < key y) then Some x else b)"
  by (induction xs arbitrary: best) (simp_all add: Let_def)

lemma pick_none: "\<forall>x\<in>set xs. \<not> P x \<Longrightarrow> pick key P best xs = best"
  by (induction xs arbitrary: best) simp_all

lemma pick_decomp:
  assumes "\<exists>x\<in>set xs. P x"
  shows "\<exists>pre r post. xs = pre @ r # post \<and> P r
           \<and> (\<forall>q\<in>set pre. P q \<longrightarrow> key r < key q)
           \<and> (\<forall>q\<in>set post. P q \<longrightarrow> key r \<le> key q)
           \<and> pick key P None xs = Some r"
  using assms
proof (induction xs rule: rev_induct)
  case Nil
  then show ?case by simp
next
  case (snoc x xs)
  show ?case
  proof (cases "\<exists>y\<in>set xs. P y")
    case False
    with snoc.prems have px: "P x" by auto
    from False have "pick key P None xs = None" by (simp add: pick_none)
    with px False have "xs @ [x] = xs @ x # [] \<and> P x
           \<and> (\<forall>q\<in>set xs. P q \<longrightarrow> key x < key q)
           \<and> (\<forall>q\<in>set []. P q \<longrightarrow> key x \<le> key q)
           \<and> pick key P None (xs @ [x]) = Some x"
      by (simp add: pick_snoc)
    then show ?thesis by blast
  next
    case True
    from snoc.IH [OF True] obtain pre r post where
      d: "xs = pre @ r # post" "P r"
         "\<forall>q\<in>set pre. P q \<longrightarrow> key r < key q"
         "\<forall>q\<in>set post. P q \<longrightarrow> key r \<le> key q"
         "pick key P None xs = Some r"
      by blast
    show ?thesis
    proof (cases "P x \<and> key x < key r")
      case True
      have all: "\<forall>q\<in>set xs. P q \<longrightarrow> key x < key q"
      proof (intro ballI impI)
        fix q assume "q \<in> set xs" "P q"
        with d have "key r \<le> key q" by auto
        with True show "key x < key q" by auto
      qed
      from True d(5) have "pick key P None (xs @ [x]) = Some x"
        by (simp add: pick_snoc)
      with True all have "xs @ [x] = xs @ x # [] \<and> P x
           \<and> (\<forall>q\<in>set xs. P q \<longrightarrow> key x < key q)
           \<and> (\<forall>q\<in>set []. P q \<longrightarrow> key x \<le> key q)
           \<and> pick key P None (xs @ [x]) = Some x"
        by simp
      then show ?thesis by blast
    next
      case False
      from False d(5) have p: "pick key P None (xs @ [x]) = Some r"
        by (auto simp add: pick_snoc)
      from False d(4) have "\<forall>q\<in>set (post @ [x]). P q \<longrightarrow> key r \<le> key q"
        by auto
      with d p have "xs @ [x] = pre @ r # (post @ [x]) \<and> P r
           \<and> (\<forall>q\<in>set pre. P q \<longrightarrow> key r < key q)
           \<and> (\<forall>q\<in>set (post @ [x]). P q \<longrightarrow> key r \<le> key q)
           \<and> pick key P None (xs @ [x]) = Some r"
        by simp
      then show ?thesis by blast
    qed
  qed
qed

lemma find_in_set: "find P xs = Some z \<Longrightarrow> z \<in> set xs"
  by (induction xs) (auto split: if_splits)

lemma set_insert_js: "set (insert_js c x ys) = insert x (set ys)"
  by (induction ys) auto

lemma sort_js_snoc: "sort_js c (xs @ [x]) = insert_js c x (sort_js c xs)"
  by (simp add: sort_js_def)

lemma sort_js_Nil: "sort_js c [] = []"
  by (simp add: sort_js_def)

lemma set_sort_js: "set (sort_js c xs) = set xs"
  by (induction xs rule: rev_induct) (auto simp: sort_js_snoc sort_js_Nil set_insert_js)

lemma mset_insert_js: "mset (insert_js c x ys) = add_mset x (mset ys)"
  by (induction ys) auto

lemma mset_sort_js: "mset (sort_js c xs) = mset xs"
  by (induction xs rule: rev_induct) (auto simp: sort_js_snoc sort_js_Nil mset_insert_js)

lemma sorted_insert_js:
  assumes "agrees c key S" "x \<in> S" "set ys \<subseteq> S" "sorted (map key ys)"
  shows "sorted (map key (insert_js c x ys))"
  using assms(3,4)
proof (induction ys)
  case Nil
  then show ?case by simp
next
  case (Cons y ys)
  from assms(1,2) Cons.prems(1) have k: "(c x y < 0) = (key x < key y)"
    by (simp add: agrees_def)
  show ?case
  proof (cases "key x < key y")
    case True
    with k Cons.prems(2) show ?thesis by (auto simp: less_imp_le)
  next
    case False
    with k Cons show ?thesis by (auto simp: set_insert_js)
  qed
qed

lemma sorted_sort_js:
  assumes "agrees c key S" "set xs \<subseteq> S"
  shows "sorted (map key (sort_js c xs))"
  using assms(2)
proof (induction xs rule: rev_induct)
  case Nil
  then show ?case by (simp add: sort_js_Nil)
next
  case (snoc x xs)
  then show ?case
    using sorted_insert_js [OF assms(1), of x "sort_js c xs"]
    by (simp add: sort_js_snoc set_sort_js)
qed

lemma find_insert_js:
  assumes "agrees c key S" "x \<in> S" "set ys \<subseteq> S" "sorted (map key ys)"
  shows "find P (insert_js c x ys) =
           (case find P ys of
              None \<Rightarrow> if P x then Some x else None
            | Some y \<Rightarrow> if P x \<and> key x < key y then Some x else Some y)"
  using assms(3,4)
proof (induction ys)
  case Nil
  then show ?case by simp
next
  case (Cons y ys)
  from assms(1,2) Cons.prems(1) have k: "(c x y < 0) = (key x < key y)"
    by (simp add: agrees_def)
  show ?case
  proof (cases "key x < key y")
    case True
    have "\<And>z. find P (y # ys) = Some z \<Longrightarrow> key x < key z"
    proof -
      fix z assume "find P (y # ys) = Some z"
      then have "z \<in> set (y # ys)" by (rule find_in_set)
      with Cons.prems(2) have "key y \<le> key z" by auto
      with True show "key x < key z" by simp
    qed
    with True k show ?thesis by (auto split: option.splits)
  next
    case False
    with k Cons show ?thesis by (auto split: option.splits)
  qed
qed

lemma find_sort_js:
  assumes "agrees c key S" "set xs \<subseteq> S"
  shows "find P (sort_js c xs) = pick key P None xs"
  using assms(2)
proof (induction xs rule: rev_induct)
  case Nil
  then show ?case by (simp add: sort_js_Nil)
next
  case (snoc x xs)
  then have "find P (insert_js c x (sort_js c xs)) =
           (case find P (sort_js c xs) of
              None \<Rightarrow> if P x then Some x else None
            | Some y \<Rightarrow> if P x \<and> key x < key y then Some x else Some y)"
    using find_insert_js [OF assms(1), of x "sort_js c xs" P] sorted_sort_js [OF assms(1), of xs]
    by (simp add: set_sort_js)
  with snoc show ?case
    by (simp add: sort_js_snoc pick_snoc Let_def split: option.splits)
qed

lemma filter_key_insert_js:
  assumes "agrees c key S" "x \<in> S" "set ys \<subseteq> S" "sorted (map key ys)"
  shows "filter (\<lambda>y. key y = k) (insert_js c x ys) =
           filter (\<lambda>y. key y = k) ys @ (if key x = k then [x] else [])"
  using assms(3,4)
proof (induction ys)
  case Nil
  then show ?case by simp
next
  case (Cons y ys)
  from assms(1,2) Cons.prems(1) have k: "(c x y < 0) = (key x < key y)"
    by (simp add: agrees_def)
  show ?case
  proof (cases "key x < key y")
    case True
    have "key x = k \<Longrightarrow> filter (\<lambda>y. key y = k) (y # ys) = []"
      using True Cons.prems(2) by (auto simp: filter_empty_conv)
    with True k show ?thesis by auto
  next
    case False
    with k Cons show ?thesis by auto
  qed
qed

lemma filter_key_sort_js:
  assumes "agrees c key S" "set xs \<subseteq> S"
  shows "filter (\<lambda>y. key y = k) (sort_js c xs) = filter (\<lambda>y. key y = k) xs"
  using assms(2)
proof (induction xs rule: rev_induct)
  case Nil
  then show ?case by (simp add: sort_js_Nil)
next
  case (snoc x xs)
  then show ?case
    using filter_key_insert_js [OF assms(1), of x "sort_js c xs" k] sorted_sort_js [OF assms(1), of xs]
    by (simp add: sort_js_snoc set_sort_js)
qed


lemma first_occurrence_unique:
  assumes "xs @ x # ys = xs' @ x # ys'" "x \<notin> set xs" "x \<notin> set xs'"
  shows "xs = xs'"
  using assms
proof (induction xs arbitrary: xs')
  case Nil
  then show ?case by (cases xs') auto
next
  case (Cons a xs)
  then show ?case by (cases xs') auto
qed

lemma pick_const_kept: "pick (\<lambda>x. 0::nat) P (Some b) xs = Some b"
  by (induction xs) simp_all

lemma pick_const_find: "pick (\<lambda>x. 0::nat) P None xs = find P xs"
  by (induction xs) (simp_all add: pick_const_kept)

text \<open>
  The scan of the sorted filtered list, told in the list before the filter and the sort:
  the element picked has the least key among the elements that pass the filter and
  satisfy \<open>P\<close>, among those the least rank, and among those it is the first.
\<close>

lemma first_least_in_original:
  fixes d :: "'a \<Rightarrow> 'k::linorder" and rank :: "'a \<Rightarrow> 'j::linorder"
  assumes ag: "agrees c rank S" and sub: "set (filter A xs) \<subseteq> S"
    and ex: "\<exists>x\<in>set xs. A x \<and> P x"
  shows "\<exists>pre r post. xs = pre @ r # post \<and> A r \<and> P r
           \<and> (\<forall>q\<in>set pre. A q \<and> P q \<longrightarrow> d r < d q \<or> (d r = d q \<and> rank r < rank q))
           \<and> (\<forall>q\<in>set post. A q \<and> P q \<longrightarrow> d r < d q \<or> (d r = d q \<and> rank r \<le> rank q))
           \<and> pick d P None (sort_js c (filter A xs)) = Some r"
proof -
  define zs where "zs = filter A xs"
  define ys where "ys = sort_js c zs"
  have zsS: "set zs \<subseteq> S" using sub by (simp add: zs_def)
  have setys: "set ys = set zs" by (simp add: ys_def set_sort_js)
  from ex have "\<exists>x\<in>set ys. P x" by (auto simp: setys zs_def)
  from pick_decomp [OF this, of d] obtain pre' r post' where
    dc: "ys = pre' @ r # post'" "P r"
        "\<forall>q\<in>set pre'. P q \<longrightarrow> d r < d q"
        "\<forall>q\<in>set post'. P q \<longrightarrow> d r \<le> d q"
        "pick d P None ys = Some r"
    by blast
  have "sorted (map rank ys)" unfolding ys_def by (rule sorted_sort_js [OF ag zsS])
  with dc(1) have hi: "\<forall>q\<in>set post'. rank r \<le> rank q"
    by (auto simp: sorted_append)
  have rnp: "r \<notin> set pre'" using dc(2,3) by auto
  have "r \<in> set ys" using dc(1) by simp
  then have rxs: "r \<in> set xs" and Ar: "A r" by (auto simp: setys zs_def)
  from split_list_first [OF rxs] obtain pre post where
    sp: "xs = pre @ r # post" "r \<notin> set pre"
    by blast
  have le: "d r \<le> d q" if "q \<in> set ys" "P q" for q
    using that dc(1,3,4) by auto
  have before: "q \<in> set pre'" if "q \<in> set ys" "rank q < rank r" for q
    using that dc(1) hi by auto
  have inys: "q \<in> set ys" if "q \<in> set xs" "A q" for q
    using that by (simp add: setys zs_def)
  have p1: "\<forall>q\<in>set pre. A q \<and> P q \<longrightarrow> d r < d q \<or> (d r = d q \<and> rank r < rank q)"
  proof (intro ballI impI)
    fix q assume q: "q \<in> set pre" "A q \<and> P q"
    then have qys: "q \<in> set ys" using sp(1) inys by simp
    show "d r < d q \<or> (d r = d q \<and> rank r < rank q)"
    proof (cases "q \<in> set pre'")
      case True
      with dc(3) q show ?thesis by auto
    next
      case False
      from le [OF qys] q have dle: "d r \<le> d q" by simp
      from before [OF qys] False have nlt: "\<not> rank q < rank r" by auto
      have "rank q \<noteq> rank r"
      proof
        assume eq: "rank q = rank r"
        define F where "F = filter (\<lambda>y. rank y = rank r)"
        have "F ys = F zs"
          unfolding ys_def F_def by (rule filter_key_sort_js [OF ag zsS])
        moreover have "F ys = F pre' @ r # F post'"
          unfolding F_def dc(1) by simp
        moreover have "F zs = F (filter A pre) @ r # F (filter A post)"
          unfolding F_def zs_def sp(1) using Ar by simp
        ultimately have "F pre' @ r # F post' = F (filter A pre) @ r # F (filter A post)"
          by simp
        moreover have "r \<notin> set (F pre')" using rnp by (simp add: F_def)
        moreover have "r \<notin> set (F (filter A pre))" using sp(2) by (simp add: F_def)
        ultimately have "F pre' = F (filter A pre)"
          by (rule first_occurrence_unique)
        moreover have "q \<in> set (F (filter A pre))" using q eq by (simp add: F_def)
        ultimately have "q \<in> set (F pre')" by simp
        then have "q \<in> set pre'" by (simp add: F_def)
        with False show False ..
      qed
      with nlt have "rank r < rank q" by simp
      with dle show ?thesis by auto
    qed
  qed
  have p2: "\<forall>q\<in>set post. A q \<and> P q \<longrightarrow> d r < d q \<or> (d r = d q \<and> rank r \<le> rank q)"
  proof (intro ballI impI)
    fix q assume q: "q \<in> set post" "A q \<and> P q"
    then have qys: "q \<in> set ys" using sp(1) inys by simp
    from le [OF qys] q have dle: "d r \<le> d q" by simp
    show "d r < d q \<or> (d r = d q \<and> rank r \<le> rank q)"
    proof (cases "rank q < rank r")
      case True
      from before [OF qys True] dc(3) q show ?thesis by auto
    next
      case False
      with dle show ?thesis by auto
    qed
  qed
  from sp(1) Ar dc(2) p1 p2 dc(5) show ?thesis
    unfolding ys_def zs_def by blast
qed

lemma finger_str_not_all: "finger_str f \<noteq> ''all''"
  by (cases f) simp_all

lemma agrees_compareRules: "agrees (compareRules f) rule_rank (applicable f)"
  using finger_str_not_all [of f]
  by (auto simp: agrees_def compareRules_def rule_rank_def applicable_def)

lemma relevant_applicable: "set (relevant_rules f rules) \<subseteq> applicable f"
  by (auto simp: relevant_rules_def applicable_def)

lemma rank_less_iff:
  "a \<in> applicable f \<Longrightarrow> b \<in> applicable f \<Longrightarrow> (rule_rank a < rule_rank b) = ranks_before f a b"
  using finger_str_not_all [of f]
  by (auto simp: rule_rank_def ranks_before_def applicable_def)

lemma exactMatch_find:
  "exactMatch w rs = map_option (\<lambda>r. (mappedSize r, exactFit w r)) (find (in_range w) rs)"
  by (induction rs) (auto simp: in_range_def)

lemma exactFit_position:
  assumes "in_range w r"
  shows "exactFit w r = position_fit_dbl (position_dbl w r)"
proof (cases "maxWidthMm r = minWidthMm r")
  case True
  then have "fsub (maxWidthMm r) (minWidthMm r) = 0" by (simp add: fsub_def dbl_0)
  with True show ?thesis
    by (simp add: exactFit_def position_dbl_def position_fit_dbl_def Let_def)
next
  case False
  with assms have "0 < maxWidthMm r - minWidthMm r" by (simp add: in_range_def)
  then have "0 < fsub (maxWidthMm r) (minWidthMm r)" by (simp add: fsub_def dbl_pos_iff)
  with False show ?thesis
    by (simp add: exactFit_def position_dbl_def position_fit_dbl_def Let_def)
qed

lemma relevant_filter: "relevant_rules f rules = filter (applies_to f) rules"
  unfolding relevant_rules_def by (rule filter_cong) (simp_all add: applies_to_def)

lemma applies_applicable: "applies_to f r = (r \<in> applicable f)"
  by (simp add: applies_to_def applicable_def)

text \<open>
  The scan of the rules that apply, sorted by the comparator of the matcher, told in the list
  of rules as it is given.
\<close>

lemma first_least_rule:
  fixes d :: "SizeRule \<Rightarrow> 'k::linorder"
  assumes "\<exists>r\<in>set rules. applies_to f r \<and> P r"
  shows "\<exists>pre r post. rules = pre @ r # post \<and> applies_to f r \<and> P r
           \<and> (\<forall>q\<in>set pre. applies_to f q \<and> P q
                 \<longrightarrow> d r < d q \<or> (d r = d q \<and> ranks_before f r q))
           \<and> (\<forall>q\<in>set post. applies_to f q \<and> P q
                 \<longrightarrow> d r < d q \<or> (d r = d q \<and> \<not> ranks_before f q r))
           \<and> pick d P None (sort_js (compareRules f) (filter (applies_to f) rules)) = Some r"
proof -
  have sub: "set (filter (applies_to f) rules) \<subseteq> applicable f"
    by (auto simp: applies_applicable)
  from first_least_in_original [OF agrees_compareRules sub assms, of d] obtain pre r post where
    dc: "rules = pre @ r # post" "applies_to f r" "P r"
        "\<forall>q\<in>set pre. applies_to f q \<and> P q
           \<longrightarrow> d r < d q \<or> (d r = d q \<and> rule_rank r < rule_rank q)"
        "\<forall>q\<in>set post. applies_to f q \<and> P q
           \<longrightarrow> d r < d q \<or> (d r = d q \<and> rule_rank r \<le> rule_rank q)"
        "pick d P None (sort_js (compareRules f) (filter (applies_to f) rules)) = Some r"
    by blast
  have p1: "\<forall>q\<in>set pre. applies_to f q \<and> P q
                 \<longrightarrow> d r < d q \<or> (d r = d q \<and> ranks_before f r q)"
  proof (intro ballI impI)
    fix q assume q: "q \<in> set pre" "applies_to f q \<and> P q"
    with dc(4) have "d r < d q \<or> (d r = d q \<and> rule_rank r < rule_rank q)" by blast
    moreover have "(rule_rank r < rule_rank q) = ranks_before f r q"
      using rank_less_iff [of r f q] dc(2) q(2) by (simp add: applies_applicable)
    ultimately show "d r < d q \<or> (d r = d q \<and> ranks_before f r q)" by simp
  qed
  have p2: "\<forall>q\<in>set post. applies_to f q \<and> P q
                 \<longrightarrow> d r < d q \<or> (d r = d q \<and> \<not> ranks_before f q r)"
  proof (intro ballI impI)
    fix q assume q: "q \<in> set post" "applies_to f q \<and> P q"
    with dc(5) have "d r < d q \<or> (d r = d q \<and> rule_rank r \<le> rule_rank q)" by blast
    moreover have "(rule_rank q < rule_rank r) = ranks_before f q r"
      using rank_less_iff [of q f r] dc(2) q(2) by (simp add: applies_applicable)
    ultimately show "d r < d q \<or> (d r = d q \<and> \<not> ranks_before f q r)" by auto
  qed
  from dc(1,2,3,6) p1 p2 show ?thesis by blast
qed

subsection \<open>The three branches of the matcher\<close>

lemma nearestLoop_pick:
  "nearestLoop w tol rs (best, bound_of w best) =
     (pick (boundaryDiff w) (\<lambda>r. boundaryDiff w r \<le> tol) best rs,
      bound_of w (pick (boundaryDiff w) (\<lambda>r. boundaryDiff w r \<le> tol) best rs))"
proof (induction rs arbitrary: best)
  case Nil
  then show ?case by simp
next
  case (Cons r rs)
  show ?case
  proof (cases best)
    case None
    with Cons [of "Some r"] Cons [of None] show ?thesis by (simp add: Let_def)
  next
    case (Some b)
    with Cons [of "Some r"] Cons [of "Some b"] show ?thesis by (simp add: Let_def)
  qed
qed

lemma closestLoop_pick:
  "closestLoop w rs (best, bound_of w best) =
     (pick (boundaryDiff w) (\<lambda>r. True) best rs,
      bound_of w (pick (boundaryDiff w) (\<lambda>r. True) best rs))"
proof (induction rs arbitrary: best)
  case Nil
  then show ?case by simp
next
  case (Cons r rs)
  show ?case
  proof (cases best)
    case None
    with Cons [of "Some r"] show ?thesis by (simp add: Let_def)
  next
    case (Some b)
    with Cons [of "Some r"] Cons [of "Some b"] show ?thesis by (simp add: Let_def)
  qed
qed

lemma toleranceMatch_pick:
  "toleranceMatch w cfg rs =
     map_option (\<lambda>r. (mappedSize r, if betweenSizes cfg = ''size_down'' then Snug else Loose))
       (pick (boundaryDiff w) (\<lambda>r. boundaryDiff w r \<le> toleranceMm cfg) None rs)"
  using nearestLoop_pick [of w "toleranceMm cfg" rs None]
  by (simp add: toleranceMatch_def split: option.splits)

lemma lastResort_Nil: "lastResort w [] = Inl TypeError"
  by (simp add: lastResort_def)

lemma lastResort_pick:
  "rs \<noteq> [] \<Longrightarrow> lastResort w rs =
     (case pick (boundaryDiff w) (\<lambda>r. True) None rs of
        None \<Rightarrow> Inl TypeError | Some r \<Rightarrow> Inr (mappedSize r, Standard))"
proof (cases rs)
  case Nil
  assume "rs \<noteq> []"
  with Nil show ?thesis by simp
next
  case (Cons r0 rest)
  have "closestLoop w (r0 # rest) (Some r0, Infinity) = closestLoop w (r0 # rest) (None, Infinity)"
    by (simp add: Let_def)
  with Cons show ?thesis
    using closestLoop_pick [of w rs None]
    by (simp add: lastResort_def del: closestLoop.simps)
qed

lemma exactMatch_None: "exactMatch w rs = None \<longleftrightarrow> (\<forall>r\<in>set rs. \<not> in_range w r)"
  by (induction rs) (auto simp: in_range_def)

lemma set_sorted_relevant: "set (sorted_relevant f rules) = set (relevant_rules f rules)"
  by (simp add: sorted_relevant_def set_sort_js)

lemma sorted_relevant_Nil: "sorted_relevant f rules = [] \<longleftrightarrow> relevant_rules f rules = []"
  using set_sorted_relevant [of f rules] by (metis set_empty)

lemma agrees_comparePreview: "agrees (comparePreview f) rule_rank (applicable f)"
  using finger_str_not_all [of f]
  by (auto simp: agrees_def comparePreview_def rule_rank_def applicable_def)

lemma previewLoop_find:
  "previewLoop w rs s0 = (case find (in_range w) rs of None \<Rightarrow> s0 | Some r \<Rightarrow> mappedSize r)"
  by (induction rs) (auto simp: in_range_def)






subsection \<open>The scenarios of the specification\<close>

lemma show_nat_digit: "n < 10 \<Longrightarrow> show_nat n = [digit_char n]"
  by simp

declare show_nat.simps [simp del]

lemmas eval_defs = applyRulesToFinger_def sorted_relevant_def relevant_rules_def sort_js_def
  compareRules_def exactFit_def toleranceMatch_def lastResort_def boundaryDiff_def
  ruleAll_def ruleThumb_def ruleThumbSame_def ruleInverted_def defaultConfig_def
  zeroTolerance_def dbl_eval

lemma scenario_A: "applyRulesToFinger 11 Index [ruleAll] defaultConfig = Inr (9, Standard)"
  by (simp add: eval_defs)

lemma scenario_B:
  "applyRulesToFinger 11 Thumb [ruleAll, ruleThumb] defaultConfig = Inr (5, Standard)"
  by (simp add: eval_defs)

lemma scenario_tie_break:
  "applyRulesToFinger 11 Thumb [ruleAll, ruleThumbSame] defaultConfig = Inr (5, Standard)"
  by (simp add: eval_defs)

lemma scenario_C:
  "applyRulesToFinger (dbl (122 / 10)) Index [ruleAll] defaultConfig = Inr (9, Snug)"
  by (simp add: eval_defs)

text \<open>
  A rule whose lower bound is above its upper bound, which \<^verbatim>\<open>PUT /v1/admin/rules/:id\<close>
  stores without the check of \<^verbatim>\<open>POST /v1/admin/rules\<close>: at its lower bound the distance
  is zero, the range does not hold the width, and the tolerance branch returns.
\<close>

lemma inverted_rule_at_distance_zero:
  "boundary_distance 12 ruleInverted = 0
   \<and> \<not> in_range 12 ruleInverted
   \<and> toleranceMm zeroTolerance = 0
   \<and> exactMatch 12 (sorted_relevant Index [ruleInverted]) = None
   \<and> toleranceMatch 12 zeroTolerance (sorted_relevant Index [ruleInverted]) = Some (9, Snug)
   \<and> applyRulesToFinger 12 Index [ruleInverted] zeroTolerance = Inr (9, Snug)"
  by (simp add: eval_defs in_range_def)

lemma scenario_far: "applyRulesToFinger 13 Index [ruleAll] defaultConfig = Inr (9, Standard)"
  by (simp add: eval_defs)


subsection \<open>Totality and the distance zero\<close>




lemma exactMatch_None_rules:
  "(exactMatch w (sorted_relevant f rules) = None)
     = (\<forall>r\<in>set rules. applies_to f r \<longrightarrow> \<not> in_range w r)"
  by (auto simp: exactMatch_None set_sorted_relevant relevant_filter)


lemma lastResort_nonempty:
  assumes "rs \<noteq> []"
  shows "\<exists>r\<in>set rs. lastResort w rs = Inr (mappedSize r, Standard)"
proof -
  from assms have "\<exists>r\<in>set rs. True" by (cases rs) auto
  from pick_decomp [OF this, of "boundaryDiff w"] obtain pre r post where
    "rs = pre @ r # post" "pick (boundaryDiff w) (\<lambda>r. True) None rs = Some r"
    by auto
  with assms show ?thesis by (auto simp: lastResort_pick)
qed

lemma applyRulesToFinger_total:
  assumes "relevant_rules f rules \<noteq> []"
  shows "\<exists>sz ft. applyRulesToFinger w f rules cfg = Inr (sz, ft)"
proof -
  from assms have "sorted_relevant f rules \<noteq> []" by (simp add: sorted_relevant_Nil)
  from lastResort_nonempty [OF this, of w] show ?thesis
    by (auto simp add: applyRulesToFinger_def Let_def split: option.splits)
qed

subsection \<open>The handler\<close>

lemmas handler_defs = recommend_post_def fingerNames_def sizeLabel_def show_int_def
  show_nat_digit digit_char_def buildProfile_def matchSets_def toMatchingSet_def compareDiff_def
  bestMatchSetId_def hand11_def finger11_def

lemma fingerLoop_Inl:
  "fingerLoop fingers rules cfg sizeRows names pf = Inl resp \<Longrightarrow> \<forall>out. resp \<noteq> JsonOk out"
  by (induction names arbitrary: pf) (auto split: option.splits sum.splits)

lemma fingerLoop_missing:
  assumes "\<forall>m\<in>set pre. fingers m \<noteq> None \<and> relevant_rules m rules \<noteq> []"
    and "fingers n = None"
  shows "fingerLoop fingers rules cfg sizeRows (pre @ n # post) pf
           = Inl (JsonError ''validation_error''
                    (''Measurement missing data for finger: '' @ finger_str n) 400)"
  using assms(1)
proof (induction pre arbitrary: pf)
  case Nil
  with assms(2) show ?case by simp
next
  case (Cons m pre)
  then obtain fd where fd: "fingers m = Some fd" by auto
  from Cons.prems have "relevant_rules m rules \<noteq> []" by simp
  from applyRulesToFinger_total [OF this, of "curve_adj_width_mm fd" cfg]
  obtain sz ft where "applyRulesToFinger (curve_adj_width_mm fd) m rules cfg = Inr (sz, ft)"
    by blast
  with fd Cons show ?case by simp
qed

lemma fingerLoop_ok:
  assumes "\<forall>m\<in>set names. fingers m \<noteq> None \<and> relevant_rules m rules \<noteq> []"
    and "distinct names"
  shows "\<exists>pf'. fingerLoop fingers rules cfg sizeRows names pf = Inr pf'
           \<and> (\<forall>m. m \<notin> set names \<longrightarrow> pf' m = pf m)
           \<and> (\<forall>m\<in>set names. \<exists>fd sz ft.
                 fingers m = Some fd
                 \<and> applyRulesToFinger (curve_adj_width_mm fd) m rules cfg = Inr (sz, ft)
                 \<and> pf' m = Some \<lparr>fr_size = sz, fr_size_label = sizeLabel sizeRows sz,
                                  fr_width_mm = curve_adj_width_mm fd, fr_fit = ft\<rparr>)"
  using assms
proof (induction names arbitrary: pf)
  case Nil
  then show ?case by simp
next
  case (Cons m names)
  then obtain fd where fd: "fingers m = Some fd" by auto
  from Cons.prems have "relevant_rules m rules \<noteq> []" by simp
  from applyRulesToFinger_total [OF this, of "curve_adj_width_mm fd" cfg]
  obtain sz ft where a: "applyRulesToFinger (curve_adj_width_mm fd) m rules cfg = Inr (sz, ft)"
    by blast
  let ?pf = "pf(m \<mapsto> \<lparr>fr_size = sz, fr_size_label = sizeLabel sizeRows sz,
                         fr_width_mm = curve_adj_width_mm fd, fr_fit = ft\<rparr>)"
  from Cons.prems have "\<forall>k\<in>set names. fingers k \<noteq> None \<and> relevant_rules k rules \<noteq> []"
    and d: "distinct names" and nm: "m \<notin> set names"
    by auto
  from Cons.IH [OF this(1) d, of ?pf] obtain pf' where
    r: "fingerLoop fingers rules cfg sizeRows names ?pf = Inr pf'"
       "\<forall>k. k \<notin> set names \<longrightarrow> pf' k = ?pf k"
       "\<forall>k\<in>set names. \<exists>fd sz ft.
                 fingers k = Some fd
                 \<and> applyRulesToFinger (curve_adj_width_mm fd) k rules cfg = Inr (sz, ft)
                 \<and> pf' k = Some \<lparr>fr_size = sz, fr_size_label = sizeLabel sizeRows sz,
                                  fr_width_mm = curve_adj_width_mm fd, fr_fit = ft\<rparr>"
    by blast
  from fd a r(1) have l: "fingerLoop fingers rules cfg sizeRows (m # names) pf = Inr pf'"
    by simp
  from r(2) nm have "pf' m = ?pf m" by blast
  with fd a r(2,3) l show ?case by auto
qed

lemma buildProfile_five:
  "buildProfile recSize =
     show_int (recSize Thumb) @ ''-'' @ show_int (recSize Index) @ ''-''
     @ show_int (recSize Middle) @ ''-'' @ show_int (recSize Ring) @ ''-''
     @ show_int (recSize Pinky)"
  by (simp add: buildProfile_def fingerNames_def)

lemma handler_calls:
  "(\<forall>out. fst (recommend_post req db) = JsonOk out \<longrightarrow>
      (\<exists>row. snd (recommend_post req db)
               = [SelectMeasurement (measurement_id out), SelectSizeRules, SelectSizeRulesConfig,
                  SelectNailSizes, SelectSizeSets, InsertRecommendation row]
            \<and> measurementId row = measurement_id out
            \<and> sizeProfile row = size_profile out
            \<and> size_profile out = buildProfile (\<lambda>n. fr_size (the (per_finger out n)))
            \<and> matchingSetId row
                = bestMatchSetId (matchSets (\<lambda>n. fr_size (the (per_finger out n))) (sizeSets db))))
   \<and> ((\<forall>out. fst (recommend_post req db) \<noteq> JsonOk out) \<longrightarrow>
        filter is_insert (snd (recommend_post req db)) = [])"
  by (auto simp: recommend_post_def Let_def dest: fingerLoop_Inl
      split: request.splits option.splits sum.splits)

lemma run_ok:
  "\<exists>out calls. recommend_post (Body (Some ''msr_1'')) dbAll = (JsonOk out, calls)"
  by (simp add: dbAll_def handler_defs eval_defs)

lemma set_fingerNames: "set fingerNames = UNIV"
proof -
  have "n \<in> set fingerNames" for n
    by (cases n) (simp_all add: fingerNames_def)
  then show ?thesis by blast
qed

lemma distinct_fingerNames: "distinct fingerNames"
  by (simp add: fingerNames_def)

lemma profile_composer_when_rules_apply:
  assumes "mid \<noteq> []" "measurements db mid = Some fingers" "sizeRules db \<noteq> []"
    and cfg: "cfg = (case sizeRulesConfig db of None \<Rightarrow> defaultConfig | Some c \<Rightarrow> c)"
  shows "(\<forall>pre n post.
            fingerNames = pre @ n # post
            \<and> (\<forall>m\<in>set pre. fingers m \<noteq> None \<and> relevant_rules m (sizeRules db) \<noteq> [])
            \<and> fingers n = None
            \<longrightarrow> recommend_post (Body (Some mid)) db
                  = (JsonError ''validation_error''
                       (''Measurement missing data for finger: '' @ finger_str n) 400,
                     [SelectMeasurement mid, SelectSizeRules, SelectSizeRulesConfig,
                      SelectNailSizes]))
       \<and> ((\<forall>n. fingers n \<noteq> None \<and> relevant_rules n (sizeRules db) \<noteq> [])
            \<longrightarrow> (\<exists>out calls sz.
                   recommend_post (Body (Some mid)) db = (JsonOk out, calls)
                   \<and> (\<forall>n. \<exists>fd ft. fingers n = Some fd
                          \<and> applyRulesToFinger (curve_adj_width_mm fd) n (sizeRules db) cfg
                              = Inr (sz n, ft))
                   \<and> size_profile out
                       = show_int (sz Thumb) @ ''-'' @ show_int (sz Index) @ ''-''
                         @ show_int (sz Middle) @ ''-'' @ show_int (sz Ring) @ ''-''
                         @ show_int (sz Pinky)))"
proof (intro conjI allI impI)
  fix pre n post
  assume a: "fingerNames = pre @ n # post
            \<and> (\<forall>m\<in>set pre. fingers m \<noteq> None \<and> relevant_rules m (sizeRules db) \<noteq> [])
            \<and> fingers n = None"
  then have "fingerLoop fingers (sizeRules db) cfg (nailSizes db) fingerNames Map.empty
           = Inl (JsonError ''validation_error''
                    (''Measurement missing data for finger: '' @ finger_str n) 400)"
    using fingerLoop_missing [of pre fingers "sizeRules db" n cfg "nailSizes db" post Map.empty]
    by simp
  with assms show "recommend_post (Body (Some mid)) db
                  = (JsonError ''validation_error''
                       (''Measurement missing data for finger: '' @ finger_str n) 400,
                     [SelectMeasurement mid, SelectSizeRules, SelectSizeRulesConfig,
                      SelectNailSizes])"
    by (simp add: recommend_post_def Let_def)
next
  assume a: "\<forall>n. fingers n \<noteq> None \<and> relevant_rules n (sizeRules db) \<noteq> []"
  then have "\<forall>m\<in>set fingerNames. fingers m \<noteq> None \<and> relevant_rules m (sizeRules db) \<noteq> []"
    by simp
  from fingerLoop_ok [OF this distinct_fingerNames, of cfg "nailSizes db" Map.empty]
  obtain pf where
    l: "fingerLoop fingers (sizeRules db) cfg (nailSizes db) fingerNames Map.empty = Inr pf"
    and r: "\<forall>m. \<exists>fd sz ft.
                 fingers m = Some fd
                 \<and> applyRulesToFinger (curve_adj_width_mm fd) m (sizeRules db) cfg = Inr (sz, ft)
                 \<and> pf m = Some \<lparr>fr_size = sz, fr_size_label = sizeLabel (nailSizes db) sz,
                                 fr_width_mm = curve_adj_width_mm fd, fr_fit = ft\<rparr>"
    by (auto simp: set_fingerNames)
  let ?sz = "\<lambda>n. fr_size (the (pf n))"
  have m: "\<forall>n. \<exists>fd ft. fingers n = Some fd
             \<and> applyRulesToFinger (curve_adj_width_mm fd) n (sizeRules db) cfg = Inr (?sz n, ft)"
  proof
    fix n
    from r obtain fd sz ft where
      "fingers n = Some fd"
      "applyRulesToFinger (curve_adj_width_mm fd) n (sizeRules db) cfg = Inr (sz, ft)"
      "pf n = Some \<lparr>fr_size = sz, fr_size_label = sizeLabel (nailSizes db) sz,
                    fr_width_mm = curve_adj_width_mm fd, fr_fit = ft\<rparr>"
      by blast
    then show "\<exists>fd ft. fingers n = Some fd
             \<and> applyRulesToFinger (curve_adj_width_mm fd) n (sizeRules db) cfg = Inr (?sz n, ft)"
      by simp
  qed
  from assms l obtain out calls where
    o: "recommend_post (Body (Some mid)) db = (JsonOk out, calls)"
       "size_profile out = buildProfile ?sz"
    by (simp add: recommend_post_def Let_def)
  from o(2) have "size_profile out
                       = show_int (?sz Thumb) @ ''-'' @ show_int (?sz Index) @ ''-''
                         @ show_int (?sz Middle) @ ''-'' @ show_int (?sz Ring) @ ''-''
                         @ show_int (?sz Pinky)"
    by (simp add: buildProfile_five)
  with o(1) m show "\<exists>out calls sz.
                   recommend_post (Body (Some mid)) db = (JsonOk out, calls)
                   \<and> (\<forall>n. \<exists>fd ft. fingers n = Some fd
                          \<and> applyRulesToFinger (curve_adj_width_mm fd) n (sizeRules db) cfg
                              = Inr (sz n, ft))
                   \<and> size_profile out
                       = show_int (sz Thumb) @ ''-'' @ show_int (sz Index) @ ''-''
                         @ show_int (sz Middle) @ ''-'' @ show_int (sz Ring) @ ''-''
                         @ show_int (sz Pinky)"
    by (intro exI [of _ out] exI [of _ calls] exI [of _ "\<lambda>n. fr_size (the (pf n))"]) simp
qed

lemma census_recommendations:
  "(v, T_recommendations) \<in> set (statements e) \<Longrightarrow>
     (v = SqlInsert \<and> e = Api_recommend_post) \<or> (v = SqlSelect \<and> e = Api_measure_history)"
  by (cases e) auto

lemma handler_statements:
  "call_statement ` set (snd (recommend_post req db)) \<subseteq> set (statements Api_recommend_post)"
  by (auto simp: recommend_post_def Let_def split: request.splits option.splits sum.splits)

lemma run_calls_no_insert: "filter is_insert calls = [] \<Longrightarrow> run_calls calls table = table"
  by (induction calls table rule: run_calls.induct) (auto split: if_splits)

section \<open>The claims\<close>

text \<open>
  Claim C1, as stated (the fit is snug for a position below 0.33, loose above 0.67 and
  standard otherwise, the position being (w - min) / (max - min)), fails where the
  rounding of the quotient decides: for the first rule of the seed script, 17 to 30, and
  the width 25.71 as a binary64 value, the position is above 0.67 and the matcher computes
  the binary64 value of 0.67 and answers standard.
\<close>

theorem exact_fit_counterexample:
  "in_range (dbl (2571 / 100)) ruleSeed0
   \<and> range_position (dbl (2571 / 100)) ruleSeed0 > 67 / 100
   \<and> position_fit (range_position (dbl (2571 / 100)) ruleSeed0) = Loose
   \<and> applyRulesToFinger (dbl (2571 / 100)) Index [ruleSeed0] defaultConfig = Inr (0, Standard)"
  by (simp add: eval_defs ruleSeed0_def in_range_def range_position_def position_fit_def)

text \<open>
  Claim C1, amended. If some rule of the list that applies to the finger holds the width
  in its inclusive range, the matcher returns the mapped size of the first such rule in
  the order ``priority descending, rule of the finger before rule for all fingers at
  equal priority, otherwise the order of the list'': the list splits around a rule \<open>r\<close>
  that applies and holds the width, that stands before every such rule to its left, and
  before which no such rule to its right stands. The result is the one of the exact
  branch, and the fit is snug for a position below 0.33, loose above 0.67 and standard
  otherwise, where the position and the thresholds are the binary64 values the source
  computes: the rounded quotient of the rounded differences, one half for a range of
  zero width.
\<close>

theorem exact_match_precedence:
  assumes "\<exists>r\<in>set rules. applies_to f r \<and> in_range w r"
  shows "\<exists>pre r post.
           rules = pre @ r # post \<and> applies_to f r \<and> in_range w r
           \<and> (\<forall>q\<in>set pre. applies_to f q \<and> in_range w q \<longrightarrow> ranks_before f r q)
           \<and> (\<forall>q\<in>set post. applies_to f q \<and> in_range w q \<longrightarrow> \<not> ranks_before f q r)
           \<and> exactMatch w (sorted_relevant f rules)
               = Some (mappedSize r, position_fit_dbl (position_dbl w r))
           \<and> applyRulesToFinger w f rules cfg
               = Inr (mappedSize r, position_fit_dbl (position_dbl w r))"
proof -
  have sr: "sorted_relevant f rules = sort_js (compareRules f) (filter (applies_to f) rules)"
    unfolding sorted_relevant_def relevant_rules_def by (simp add: applies_to_def [abs_def])
  from first_least_rule [OF assms, of "\<lambda>x. 0::nat"] obtain pre r post where
    dc: "rules = pre @ r # post" "applies_to f r" "in_range w r"
        "\<forall>q\<in>set pre. applies_to f q \<and> in_range w q \<longrightarrow> ranks_before f r q"
        "\<forall>q\<in>set post. applies_to f q \<and> in_range w q \<longrightarrow> \<not> ranks_before f q r"
        "pick (\<lambda>x. 0::nat) (in_range w) None (sorted_relevant f rules) = Some r"
    unfolding sr by auto
  from dc(6) have "find (in_range w) (sorted_relevant f rules) = Some r"
    by (simp add: pick_const_find)
  with dc(3) have e: "exactMatch w (sorted_relevant f rules)
      = Some (mappedSize r, position_fit_dbl (position_dbl w r))"
    by (simp add: exactMatch_find exactFit_position)
  then have "applyRulesToFinger w f rules cfg
      = Inr (mappedSize r, position_fit_dbl (position_dbl w r))"
    by (simp add: applyRulesToFinger_def)
  with dc(1-5) e show ?thesis by blast
qed

theorem exact_match_precedence_witness:
  "(\<exists>r\<in>set [ruleAll, ruleThumb]. applies_to Thumb r \<and> in_range 11 r)
   \<and> (\<exists>r::SizeRule. applyRulesToFinger 11 Thumb [ruleAll, ruleThumb] defaultConfig
            = Inr (mappedSize r, position_fit_dbl (position_dbl 11 r)))"
proof -
  have h: "\<exists>r\<in>set [ruleAll, ruleThumb]. applies_to Thumb r \<and> in_range 11 r"
    by (simp add: applies_to_def ruleAll_def in_range_def)
  show ?thesis
    using h exact_match_precedence [OF h, of defaultConfig] by blast
qed

text \<open>
  Claim C4, as stated (the rule with the smallest boundary distance
  min(|w - min|, |w - max|) is returned), fails where two distances round to the same
  binary64 value: for the width 4, a rule from 6.7 and a rule up to 1.3 (as binary64
  values) and a tolerance of 3, the second rule is strictly nearer, both computed
  distances are the binary64 value of 2.7, and the matcher returns the first rule.
\<close>

theorem tolerance_tie_counterexample:
  "\<not> (\<exists>r\<in>set [ruleAbove, ruleBelow]. applies_to Index r \<and> in_range 4 r)
   \<and> boundary_distance 4 ruleAbove \<le> toleranceMm tolerance3
   \<and> boundary_distance 4 ruleBelow < boundary_distance 4 ruleAbove
   \<and> mappedSize ruleBelow = 2
   \<and> applyRulesToFinger 4 Index [ruleAbove, ruleBelow] tolerance3 = Inr (1, Snug)"
  by (simp add: eval_defs ruleAbove_def ruleBelow_def tolerance3_def applies_to_def in_range_def)

text \<open>
  Claim C4, amended. If no rule that applies to the finger holds the width and some rule
  that applies has a computed boundary distance (each difference rounded to binary64)
  within the tolerance, the matcher returns the mapped size of the rule \<open>r\<close> of the list
  that applies, lies within the tolerance and has the least computed distance; among
  rules of equal computed distance it is the first in the order of claim C1 (every rule
  that applies and stands to its left is farther or equally far and ranked after it,
  every one to its right is farther or equally far and not ranked before it). The fit is
  snug for the policy \<^verbatim>\<open>size_down\<close> and loose otherwise.
\<close>

theorem tolerance_fallback:
  assumes "\<forall>r\<in>set rules. applies_to f r \<longrightarrow> \<not> in_range w r"
    and "\<exists>r\<in>set rules. applies_to f r \<and> computed_distance w r \<le> toleranceMm cfg"
  shows "\<exists>pre r post.
           rules = pre @ r # post \<and> applies_to f r
           \<and> computed_distance w r \<le> toleranceMm cfg
           \<and> (\<forall>q\<in>set pre. applies_to f q
                 \<longrightarrow> computed_distance w r < computed_distance w q
                     \<or> (computed_distance w r = computed_distance w q \<and> ranks_before f r q))
           \<and> (\<forall>q\<in>set post. applies_to f q
                 \<longrightarrow> computed_distance w r < computed_distance w q
                     \<or> (computed_distance w r = computed_distance w q \<and> \<not> ranks_before f q r))
           \<and> applyRulesToFinger w f rules cfg
               = Inr (mappedSize r, if betweenSizes cfg = ''size_down'' then Snug else Loose)"
proof -
  have sr: "sorted_relevant f rules = sort_js (compareRules f) (filter (applies_to f) rules)"
    unfolding sorted_relevant_def relevant_rules_def by (simp add: applies_to_def [abs_def])
  let ?P = "\<lambda>r. boundaryDiff w r \<le> toleranceMm cfg"
  from assms(2) have "\<exists>r\<in>set rules. applies_to f r \<and> ?P r"
    by (simp add: boundaryDiff_def)
  from first_least_rule [OF this, of "boundaryDiff w"] obtain pre r post where
    dc: "rules = pre @ r # post" "applies_to f r" "?P r"
        "\<forall>q\<in>set pre. applies_to f q \<and> ?P q
           \<longrightarrow> boundaryDiff w r < boundaryDiff w q
               \<or> (boundaryDiff w r = boundaryDiff w q \<and> ranks_before f r q)"
        "\<forall>q\<in>set post. applies_to f q \<and> ?P q
           \<longrightarrow> boundaryDiff w r < boundaryDiff w q
               \<or> (boundaryDiff w r = boundaryDiff w q \<and> \<not> ranks_before f q r)"
        "pick (boundaryDiff w) ?P None (sorted_relevant f rules) = Some r"
    unfolding sr by blast
  have p1: "\<forall>q\<in>set pre. applies_to f q
                 \<longrightarrow> boundaryDiff w r < boundaryDiff w q
                     \<or> (boundaryDiff w r = boundaryDiff w q \<and> ranks_before f r q)"
  proof (intro ballI impI)
    fix q assume q: "q \<in> set pre" "applies_to f q"
    show "boundaryDiff w r < boundaryDiff w q
            \<or> (boundaryDiff w r = boundaryDiff w q \<and> ranks_before f r q)"
    proof (cases "?P q")
      case True
      with dc(4) q show ?thesis by blast
    next
      case False
      with dc(3) show ?thesis by simp
    qed
  qed
  have p2: "\<forall>q\<in>set post. applies_to f q
                 \<longrightarrow> boundaryDiff w r < boundaryDiff w q
                     \<or> (boundaryDiff w r = boundaryDiff w q \<and> \<not> ranks_before f q r)"
  proof (intro ballI impI)
    fix q assume q: "q \<in> set post" "applies_to f q"
    show "boundaryDiff w r < boundaryDiff w q
            \<or> (boundaryDiff w r = boundaryDiff w q \<and> \<not> ranks_before f q r)"
    proof (cases "?P q")
      case True
      with dc(5) q show ?thesis by blast
    next
      case False
      with dc(3) show ?thesis by simp
    qed
  qed
  from assms(1) have "exactMatch w (sorted_relevant f rules) = None"
    by (simp add: exactMatch_None_rules)
  with dc(6) have "applyRulesToFinger w f rules cfg
      = Inr (mappedSize r, if betweenSizes cfg = ''size_down'' then Snug else Loose)"
    by (simp add: applyRulesToFinger_def toleranceMatch_pick)
  with dc(1,2,3) p1 p2 show ?thesis
    unfolding boundaryDiff_def by blast
qed

theorem tolerance_fallback_witness:
  "\<not> (\<exists>r\<in>set [ruleAll]. applies_to Index r \<and> in_range (dbl (122 / 10)) r)
   \<and> (\<exists>r\<in>set [ruleAll]. applies_to Index r
         \<and> computed_distance (dbl (122 / 10)) r \<le> toleranceMm defaultConfig)
   \<and> (\<exists>r::SizeRule. applyRulesToFinger (dbl (122 / 10)) Index [ruleAll] defaultConfig
            = Inr (mappedSize r,
                   if betweenSizes defaultConfig = ''size_down'' then Snug else Loose))"
proof -
  have h1: "\<forall>r\<in>set [ruleAll]. applies_to Index r \<longrightarrow> \<not> in_range (dbl (122 / 10)) r"
    by (simp add: ruleAll_def in_range_def dbl_eval)
  have h2: "\<exists>r\<in>set [ruleAll]. applies_to Index r
              \<and> computed_distance (dbl (122 / 10)) r \<le> toleranceMm defaultConfig"
    by (simp add: applies_to_def ruleAll_def defaultConfig_def dbl_eval)
  have "\<exists>r::SizeRule. applyRulesToFinger (dbl (122 / 10)) Index [ruleAll] defaultConfig
            = Inr (mappedSize r,
                   if betweenSizes defaultConfig = ''size_down'' then Snug else Loose)"
    using tolerance_fallback [OF h1 h2] by (elim exE conjE) (rule exI, assumption)
  with h1 h2 show ?thesis by simp
qed

text \<open>
  Claim C5, as stated (the rule with the globally smallest boundary distance is
  returned), fails where two distances round to the same binary64 value: for the width
  14, a rule from 22.8 with size 0 and a rule up to 5.2 with size 9 (as binary64 values),
  the second rule is strictly nearer, both computed distances are the binary64 value of
  8.8, and the matcher returns size 0.
\<close>

theorem last_resort_tie_counterexample:
  "\<not> (\<exists>r\<in>set [ruleFar, ruleNear]. applies_to Index r \<and> in_range 14 r)
   \<and> \<not> (\<exists>r\<in>set [ruleFar, ruleNear]. boundary_distance 14 r \<le> toleranceMm defaultConfig)
   \<and> boundary_distance 14 ruleNear < boundary_distance 14 ruleFar
   \<and> mappedSize ruleNear = 9
   \<and> applyRulesToFinger 14 Index [ruleFar, ruleNear] defaultConfig = Inr (0, Standard)"
  by (simp add: eval_defs ruleFar_def ruleNear_def applies_to_def in_range_def)

text \<open>
  Claim C5, amended. When some rule of the list applies to the finger the matcher returns
  a result; and if no rule that applies holds the width and none has a computed boundary
  distance (each difference rounded to binary64) within the tolerance, the result is the
  mapped size of the rule that applies with the least computed distance of all, among
  rules of equal computed distance the first in the order of claim C1, with fit standard.
\<close>

theorem last_resort:
  assumes "\<exists>r\<in>set rules. applies_to f r"
  shows "(\<exists>res. applyRulesToFinger w f rules cfg = Inr res)
       \<and> ((\<forall>r\<in>set rules. applies_to f r
              \<longrightarrow> \<not> in_range w r \<and> toleranceMm cfg < computed_distance w r)
          \<longrightarrow> (\<exists>pre r post.
                 rules = pre @ r # post \<and> applies_to f r
                 \<and> (\<forall>q\<in>set pre. applies_to f q
                       \<longrightarrow> computed_distance w r < computed_distance w q
                           \<or> (computed_distance w r = computed_distance w q
                               \<and> ranks_before f r q))
                 \<and> (\<forall>q\<in>set post. applies_to f q
                       \<longrightarrow> computed_distance w r < computed_distance w q
                           \<or> (computed_distance w r = computed_distance w q
                               \<and> \<not> ranks_before f q r))
                 \<and> applyRulesToFinger w f rules cfg = Inr (mappedSize r, Standard)))"
proof -
  have sr: "sorted_relevant f rules = sort_js (compareRules f) (filter (applies_to f) rules)"
    unfolding sorted_relevant_def relevant_rules_def by (simp add: applies_to_def [abs_def])
  let ?rs = "sorted_relevant f rules"
  from assms have ne: "relevant_rules f rules \<noteq> []"
    by (auto simp: relevant_rules_def applies_to_def filter_empty_conv)
  from applyRulesToFinger_total [OF ne, of w cfg]
  have total: "\<exists>res. applyRulesToFinger w f rules cfg = Inr res" by auto
  from assms have "\<exists>r\<in>set rules. applies_to f r \<and> True" by simp
  from first_least_rule [OF this, of "boundaryDiff w"] obtain pre r post where
    dc: "rules = pre @ r # post" "applies_to f r"
        "\<forall>q\<in>set pre. applies_to f q
           \<longrightarrow> boundaryDiff w r < boundaryDiff w q
               \<or> (boundaryDiff w r = boundaryDiff w q \<and> ranks_before f r q)"
        "\<forall>q\<in>set post. applies_to f q
           \<longrightarrow> boundaryDiff w r < boundaryDiff w q
               \<or> (boundaryDiff w r = boundaryDiff w q \<and> \<not> ranks_before f q r)"
        "pick (boundaryDiff w) (\<lambda>r. True) None ?rs = Some r"
    unfolding sr by auto
  from ne have "?rs \<noteq> []" by (simp add: sorted_relevant_Nil)
  with dc(5) have lr: "lastResort w ?rs = Inr (mappedSize r, Standard)"
    by (simp add: lastResort_pick)
  have "applyRulesToFinger w f rules cfg = Inr (mappedSize r, Standard)"
    if a: "\<forall>r\<in>set rules. applies_to f r
              \<longrightarrow> \<not> in_range w r \<and> toleranceMm cfg < computed_distance w r"
  proof -
    from a have e: "exactMatch w ?rs = None"
      by (simp add: exactMatch_None_rules)
    from a have "\<forall>r\<in>set ?rs. \<not> boundaryDiff w r \<le> toleranceMm cfg"
      by (auto simp: set_sorted_relevant relevant_rules_def applies_to_def boundaryDiff_def)
    then have "pick (boundaryDiff w) (\<lambda>r. boundaryDiff w r \<le> toleranceMm cfg) None ?rs = None"
      by (rule pick_none)
    then have "toleranceMatch w cfg ?rs = None"
      by (simp add: toleranceMatch_pick)
    with e lr show ?thesis by (simp add: applyRulesToFinger_def)
  qed
  with dc(1-4) total show ?thesis
    unfolding boundaryDiff_def by blast
qed

theorem last_resort_witness:
  "(\<exists>r\<in>set [ruleAll]. applies_to Index r)
   \<and> \<not> (\<exists>r\<in>set [ruleAll]. applies_to Index r
           \<and> (in_range 13 r \<or> computed_distance 13 r \<le> toleranceMm defaultConfig))
   \<and> (\<exists>r::SizeRule. applyRulesToFinger 13 Index [ruleAll] defaultConfig
                       = Inr (mappedSize r, Standard))"
proof -
  have h: "\<exists>r\<in>set [ruleAll]. applies_to Index r"
    by (simp add: applies_to_def ruleAll_def)
  have h1: "\<forall>r\<in>set [ruleAll]. applies_to Index r
              \<longrightarrow> \<not> in_range 13 r \<and> toleranceMm defaultConfig < computed_distance 13 r"
    by (simp add: ruleAll_def in_range_def defaultConfig_def dbl_eval)
  from last_resort [OF h, of 13 defaultConfig] h1
  have "\<exists>pre r post.
          [ruleAll] = pre @ r # post \<and> applies_to Index r
          \<and> (\<forall>q\<in>set pre. applies_to Index q
                \<longrightarrow> computed_distance 13 r < computed_distance 13 q
                    \<or> (computed_distance 13 r = computed_distance 13 q
                        \<and> ranks_before Index r q))
          \<and> (\<forall>q\<in>set post. applies_to Index q
                \<longrightarrow> computed_distance 13 r < computed_distance 13 q
                    \<or> (computed_distance 13 r = computed_distance 13 q
                        \<and> \<not> ranks_before Index q r))
          \<and> applyRulesToFinger 13 Index [ruleAll] defaultConfig = Inr (mappedSize r, Standard)"
    by (elim conjE impE) assumption+
  then have "\<exists>r::SizeRule. applyRulesToFinger 13 Index [ruleAll] defaultConfig
                            = Inr (mappedSize r, Standard)"
    by (elim exE conjE) (rule exI, assumption)
  moreover have "\<not> (\<exists>r\<in>set [ruleAll]. applies_to Index r
           \<and> (in_range 13 r \<or> computed_distance 13 r \<le> toleranceMm defaultConfig))"
    by (simp add: ruleAll_def in_range_def defaultConfig_def dbl_eval)
  ultimately show ?thesis using h by (intro conjI)
qed

text \<open>
  Claim C6 (the preview agrees with the live matcher on exact matches). For a width that
  lies in the inclusive range of some rule applicable to the finger, the preview computes
  the mapped size that \<open>applyRulesToFinger\<close> returns. The comparator of the preview
  answers \<open>0\<close> where the one of the matcher answers \<open>1\<close>; the two are negative on the
  same pairs, which is all the sort asks of them.
\<close>

theorem preview_agrees_on_exact:
  assumes "\<exists>r\<in>set (relevant_rules f rules). in_range w r"
  shows "\<exists>fit. applyRulesToFinger w f rules cfg = Inr (previewSize w f rules, fit)"
proof -
  let ?xs = "relevant_rules f rules"
  have app: "set ?xs \<subseteq> applicable f" by (rule relevant_applicable)
  from pick_decomp [OF assms, of rule_rank] obtain r where
    p: "pick rule_rank (in_range w) None ?xs = Some r"
    by blast
  have live: "find (in_range w) (sort_js (compareRules f) ?xs) = Some r"
    using find_sort_js [OF agrees_compareRules app, of "in_range w"] p by simp
  have prev: "find (in_range w) (sort_js (comparePreview f) ?xs) = Some r"
    using find_sort_js [OF agrees_comparePreview app, of "in_range w"] p by simp
  from prev have "previewSize w f rules = mappedSize r"
    by (simp add: previewSize_def previewLoop_find Let_def)
  moreover from live have "applyRulesToFinger w f rules cfg = Inr (mappedSize r, exactFit w r)"
    by (simp add: applyRulesToFinger_def sorted_relevant_def exactMatch_find)
  ultimately show ?thesis by simp
qed

theorem preview_agrees_on_exact_witness:
  "(\<exists>r\<in>set (relevant_rules Thumb [ruleAll, ruleThumbSame]). in_range 11 r)
   \<and> (\<exists>fit. applyRulesToFinger 11 Thumb [ruleAll, ruleThumbSame] defaultConfig
              = Inr (previewSize 11 Thumb [ruleAll, ruleThumbSame], fit))"
proof -
  have h: "\<exists>r\<in>set (relevant_rules Thumb [ruleAll, ruleThumbSame]). in_range 11 r"
    by (simp add: relevant_rules_def ruleAll_def in_range_def)
  show ?thesis
    using h preview_agrees_on_exact [OF h, of defaultConfig] by blast
qed



text \<open>
  Claim C2, as stated (the check for rules precedes the fetch of the measurement, so an
  unknown measurement id against an empty rule set answers \<^verbatim>\<open>no_rules\<close>), fails: with no
  rules and an unknown id the handler answers \<^verbatim>\<open>not_found\<close>, after the one statement that
  reads the measurement. The test ``returns 404 when measurement not found'' of
  \<^verbatim>\<open>routes.test.ts\<close> expects that answer from a database that returns no row at all.
\<close>

theorem no_rules_check_counterexample:
  "sizeRules emptyDb = []
   \<and> recommend_post (Body (Some ''msr_nonexistent'')) emptyDb
       = (JsonError ''not_found'' ''Measurement not found'' 404,
          [SelectMeasurement ''msr_nonexistent''])"
  by (simp add: emptyDb_def recommend_post_def)

text \<open>
  Claim C2, amended. The measurement is fetched first: an unknown measurement id answers
  \<^verbatim>\<open>not_found\<close> whatever the rules are; when the measurement exists and the chart has
  no rule the handler answers \<^verbatim>\<open>no_rules\<close>, having read the measurement and the rules
  and nothing else.
\<close>

theorem measurement_fetch_precedes_rules_check:
  assumes "mid \<noteq> []"
  shows "(measurements db mid = None
          \<longrightarrow> recommend_post (Body (Some mid)) db
                = (JsonError ''not_found'' ''Measurement not found'' 404, [SelectMeasurement mid]))
       \<and> (measurements db mid \<noteq> None \<and> sizeRules db = []
          \<longrightarrow> recommend_post (Body (Some mid)) db
                = (JsonError ''no_rules''
                     ''Size mapping rules have not been configured. Contact admin.'' 400,
                   [SelectMeasurement mid, SelectSizeRules]))"
  using assms by (auto simp: recommend_post_def)

theorem measurement_fetch_precedes_rules_check_witness:
  "''msr_1'' \<noteq> []
   \<and> measurements dbNoRules ''msr_1'' \<noteq> None \<and> sizeRules dbNoRules = []
   \<and> recommend_post (Body (Some ''msr_1'')) dbNoRules
                = (JsonError ''no_rules''
                     ''Size mapping rules have not been configured. Contact admin.'' 400,
                   [SelectMeasurement ''msr_1'', SelectSizeRules])"
proof -
  have h: "''msr_1'' \<noteq> []" by simp
  have m: "measurements dbNoRules ''msr_1'' \<noteq> None" "sizeRules dbNoRules = []"
    by (simp_all add: dbNoRules_def)
  from measurement_fetch_precedes_rules_check [OF h, of dbNoRules] m
  show ?thesis by simp
qed

text \<open>
  Claim C3 (the engine never throws once the chart has a rule) fails where the chart has
  rules and none of them applies to a finger: the filtered list is empty, no branch
  returns, and \<^verbatim>\<open>closestRule.mappedSize\<close> throws on \<^verbatim>\<open>undefined\<close>. The database holds
  one rule, for the thumb; the matcher throws for the index finger and the exception
  leaves the handler.
\<close>

theorem no_applicable_rule_throws:
  "length (sizeRules dbThumbOnly) = 1
   \<and> relevant_rules Index (sizeRules dbThumbOnly) = []
   \<and> applyRulesToFinger 11 Index (sizeRules dbThumbOnly) defaultConfig = Inl TypeError
   \<and> recommend_post (Body (Some ''msr_1'')) dbThumbOnly
       = (Uncaught TypeError,
          [SelectMeasurement ''msr_1'', SelectSizeRules, SelectSizeRulesConfig, SelectNailSizes])"
  by (simp add: dbThumbOnly_def handler_defs eval_defs)

text \<open>
  Claim C8 (the request fails with a validation error naming the first missing finger,
  and otherwise the profile is the five sizes joined by dashes) fails on the same
  exception: with rules for the thumb only and all five fingers measured no profile is
  built, and with a rule for the index finger only and the index finger missing the
  exception for the thumb comes before the check of the index finger. The lemma
  \<open>profile_composer_when_rules_apply\<close> states what holds when the fingers reached have
  an applicable rule.
\<close>

theorem profile_composer_throws:
  "hand11 Thumb \<noteq> None \<and> hand11 Index \<noteq> None \<and> hand11 Middle \<noteq> None
   \<and> hand11 Ring \<noteq> None \<and> hand11 Pinky \<noteq> None
   \<and> fst (recommend_post (Body (Some ''msr_1'')) dbThumbOnly) = Uncaught TypeError
   \<and> handNoIndex Thumb \<noteq> None \<and> handNoIndex Index = None
   \<and> fst (recommend_post (Body (Some ''msr_2'')) dbIndexOnly) = Uncaught TypeError"
  by (simp add: dbThumbOnly_def dbIndexOnly_def handNoIndex_def ruleIndex_def handler_defs eval_defs)

text \<open>
  Claim C9 (one append, after everything else, and nothing updates or deletes a
  recommendation). A request that succeeds sends the five selects and then one insert,
  whose row holds the profile and the best set computed from the per-finger results; the
  table afterwards is the table before with that row appended. A request that fails
  sends no insert and leaves the table as it was. The statements of the handler are
  among those listed for its endpoint, and of all the statements of all endpoints the
  only ones on the table of recommendations are this insert and the select of the
  history endpoint.
\<close>

theorem recorder_single_append:
  "(\<forall>out. fst (recommend_post req db) = JsonOk out \<longrightarrow>
      (\<exists>row. snd (recommend_post req db)
               = [SelectMeasurement (measurement_id out), SelectSizeRules, SelectSizeRulesConfig,
                  SelectNailSizes, SelectSizeSets, InsertRecommendation row]
            \<and> measurementId row = measurement_id out
            \<and> sizeProfile row = size_profile out
            \<and> size_profile out = buildProfile (\<lambda>n. fr_size (the (per_finger out n)))
            \<and> matchingSetId row
                = bestMatchSetId (matchSets (\<lambda>n. fr_size (the (per_finger out n))) (sizeSets db))
            \<and> run_calls (snd (recommend_post req db)) table = table @ [row]))
   \<and> ((\<forall>out. fst (recommend_post req db) \<noteq> JsonOk out) \<longrightarrow>
        filter is_insert (snd (recommend_post req db)) = []
        \<and> run_calls (snd (recommend_post req db)) table = table)
   \<and> call_statement ` set (snd (recommend_post req db)) \<subseteq> set (statements Api_recommend_post)
   \<and> (\<forall>e v. (v, T_recommendations) \<in> set (statements e) \<longrightarrow>
         (v = SqlInsert \<and> e = Api_recommend_post) \<or> (v = SqlSelect \<and> e = Api_measure_history))"
proof (intro conjI allI impI)
  fix out
  assume "fst (recommend_post req db) = JsonOk out"
  with handler_calls [of req db] obtain row where
    r: "snd (recommend_post req db)
               = [SelectMeasurement (measurement_id out), SelectSizeRules, SelectSizeRulesConfig,
                  SelectNailSizes, SelectSizeSets, InsertRecommendation row]"
       "measurementId row = measurement_id out"
       "sizeProfile row = size_profile out"
       "size_profile out = buildProfile (\<lambda>n. fr_size (the (per_finger out n)))"
       "matchingSetId row
                = bestMatchSetId (matchSets (\<lambda>n. fr_size (the (per_finger out n))) (sizeSets db))"
    by blast
  from r(1) have "run_calls (snd (recommend_post req db)) table = table @ [row]"
    by simp
  with r show "\<exists>row. snd (recommend_post req db)
               = [SelectMeasurement (measurement_id out), SelectSizeRules, SelectSizeRulesConfig,
                  SelectNailSizes, SelectSizeSets, InsertRecommendation row]
            \<and> measurementId row = measurement_id out
            \<and> sizeProfile row = size_profile out
            \<and> size_profile out = buildProfile (\<lambda>n. fr_size (the (per_finger out n)))
            \<and> matchingSetId row
                = bestMatchSetId (matchSets (\<lambda>n. fr_size (the (per_finger out n))) (sizeSets db))
            \<and> run_calls (snd (recommend_post req db)) table = table @ [row]"
    by blast
next
  assume "\<forall>out. fst (recommend_post req db) \<noteq> JsonOk out"
  with handler_calls [of req db] show "filter is_insert (snd (recommend_post req db)) = []"
    by blast
  then show "run_calls (snd (recommend_post req db)) table = table"
    by (rule run_calls_no_insert)
next
  show "call_statement ` set (snd (recommend_post req db)) \<subseteq> set (statements Api_recommend_post)"
    by (rule handler_statements)
next
  fix e v
  assume "(v, T_recommendations) \<in> set (statements e)"
  then show "(v = SqlInsert \<and> e = Api_recommend_post) \<or> (v = SqlSelect \<and> e = Api_measure_history)"
    by (rule census_recommendations)
qed

theorem recorder_single_append_witness:
  "\<exists>out row. fst (recommend_post (Body (Some ''msr_1'')) dbAll) = JsonOk out
     \<and> snd (recommend_post (Body (Some ''msr_1'')) dbAll)
         = [SelectMeasurement (measurement_id out), SelectSizeRules, SelectSizeRulesConfig,
            SelectNailSizes, SelectSizeSets, InsertRecommendation row]
     \<and> run_calls (snd (recommend_post (Body (Some ''msr_1'')) dbAll)) [] = [row]"
proof -
  from run_ok obtain out where o: "fst (recommend_post (Body (Some ''msr_1'')) dbAll) = JsonOk out"
    by auto
  with recorder_single_append [of "Body (Some ''msr_1'')" dbAll "[]"] obtain row where
    "snd (recommend_post (Body (Some ''msr_1'')) dbAll)
         = [SelectMeasurement (measurement_id out), SelectSizeRules, SelectSizeRulesConfig,
            SelectNailSizes, SelectSizeSets, InsertRecommendation row]"
    "run_calls (snd (recommend_post (Body (Some ''msr_1'')) dbAll)) [] = [] @ [row]"
    by blast
  with o show ?thesis by auto
qed



end
